theory Spec2Isabelle
  imports Main "HOL-Library.Word" "HOL-Library.Sublist"
begin

section \<open>The serial/TCP tunnel of \<^verbatim>\<open>serial_tcp_tunel.py\<close>\<close>

text \<open>
  The program opens one serial port, listens on a TCP port and relays bytes between the
  serial device and a single TCP client.  A buffer is a Python \<^verbatim>\<open>bytes\<close> object: a list
  of octets.
\<close>

type_synonym byte = "8 word"

subsection \<open>The IAC filter (lines 73 to 84 of \<^verbatim>\<open>handle_tcp_client\<close>)\<close>

text \<open>
  \<^verbatim>\<open>
  filtered_data = bytearray()
  i = 0
  while i < len(data):
      byte = data[i]
      if byte == 0xFF:
          i += 3
      else:
          filtered_data.append(byte)
          i += 1
  data_to_write = bytes(filtered_data)
  \<close>
  The loop is the function \<open>iac_loop\<close> on the index \<open>i\<close> and the accumulator
  \<open>filtered_data\<close>; \<open>data ! i\<close> is only read under the guard \<open>i < length data\<close>.
\<close>

function iac_loop :: "byte list \<Rightarrow> nat \<Rightarrow> byte list \<Rightarrow> byte list" where
  "iac_loop data i filtered_data =
     (if i < length data then
        (if data ! i = 0xFF then iac_loop data (i + 3) filtered_data
         else iac_loop data (i + 1) (filtered_data @ [data ! i]))
      else filtered_data)"
  by pat_completeness auto
termination
  by (relation "measure (\<lambda>(data, i, filtered_data). length data - i)") auto

declare iac_loop.simps [simp del]

definition iac_filter :: "byte list \<Rightarrow> byte list" where
  "iac_filter data = iac_loop data 0 []"

text \<open>
  A view of the same scan by recursion on the buffer, used in the proofs only: at a marker
  the marker and the next two bytes (as many as there are) are skipped.
\<close>

fun iac_scan :: "byte list \<Rightarrow> byte list" where
  "iac_scan [] = []"
| "iac_scan (b # bs) = (if b = 0xFF then iac_scan (drop 2 bs) else b # iac_scan bs)"

text \<open>
  A buffer without a truncated sequence: it is made of bytes other than the marker and of
  complete three-byte sequences that start with the marker.
\<close>

fun complete_frames :: "byte list \<Rightarrow> bool" where
  "complete_frames [] = True"
| "complete_frames (b # bs) =
     (if b = 0xFF then 2 \<le> length bs \<and> complete_frames (drop 2 bs) else complete_frames bs)"

subsection \<open>Shared state and the environment\<close>

text \<open>
  The module keeps the serial port, the client's socket, the client's address and the run
  flag in globals (lines 14 to 17).  A connection handle stands for a socket object and
  an address for the pair \<^verbatim>\<open>(host, port)\<close> that \<^verbatim>\<open>accept\<close> returns.  The calls on the
  serial port and on the sockets are the environment: what each call returns or raises
  is an input of the model, and what the program hands to them is logged in the state.
  A thread function is run on the list of the results of its successive calls; when the
  list runs out the thread has not returned.  Each loop test reads the globals from the
  state, and in the run of one thread function no other thread changes them.
\<close>

type_synonym conn = nat
type_synonym addr = "string \<times> nat"

datatype py_exc = SocketError | SerialException | AttributeError | TypeError | OtherException

text \<open>
  \<^verbatim>\<open>socket.error\<close> is \<^verbatim>\<open>OSError\<close>, and \<^verbatim>\<open>serial.SerialException\<close> derives from
  \<^verbatim>\<open>IOError\<close>, which is \<^verbatim>\<open>OSError\<close> too; all of them derive from \<^verbatim>\<open>Exception\<close>.
  \<open>OtherException\<close> is any other exception that derives from \<^verbatim>\<open>Exception\<close>.
\<close>

fun isinstance_socket_error :: "py_exc \<Rightarrow> bool" where
  "isinstance_socket_error SocketError = True"
| "isinstance_socket_error SerialException = True"
| "isinstance_socket_error AttributeError = False"
| "isinstance_socket_error TypeError = False"
| "isinstance_socket_error OtherException = False"

fun isinstance_SerialException :: "py_exc \<Rightarrow> bool" where
  "isinstance_SerialException SerialException = True"
| "isinstance_SerialException SocketError = False"
| "isinstance_SerialException AttributeError = False"
| "isinstance_SerialException TypeError = False"
| "isinstance_SerialException OtherException = False"

fun isinstance_Exception :: "py_exc \<Rightarrow> bool" where
  "isinstance_Exception SocketError = True"
| "isinstance_Exception SerialException = True"
| "isinstance_Exception AttributeError = True"
| "isinstance_Exception TypeError = True"
| "isinstance_Exception OtherException = True"

datatype io_result = Done | Raises py_exc

datatype recv_result = Recv "byte list" | RecvRaises py_exc

datatype serial_poll = NoneWaiting | Waiting "byte list" | PollRaises py_exc

record tunnel =
  tcp_socket :: "conn option"
  client_address :: "addr option"
  is_running :: bool
  closed :: "conn list"
  pending :: "(conn \<times> addr) list"
  sessions :: "conn list"
  tcp_in :: "byte list list"
  serial_out :: "(byte list \<times> io_result) list"
  serial_in :: "byte list list"
  tcp_out :: "(conn \<times> byte list \<times> io_result) list"

text \<open>
  \<open>closed\<close> lists the connections on which \<^verbatim>\<open>close()\<close> was called; \<open>pending\<close> the handler
  threads the listener has created and whose first statement has not run yet;
  \<open>sessions\<close> the handler threads between line 55 and the end of their \<^verbatim>\<open>finally\<close> block;
  \<open>tcp_in\<close> the buffers \<^verbatim>\<open>conn.recv\<close> returned; \<open>serial_out\<close> the payloads handed to
  \<^verbatim>\<open>ser.write\<close>, each with the outcome of the call; \<open>serial_in\<close> the chunks \<^verbatim>\<open>ser.read\<close>
  returned; \<open>tcp_out\<close> the payloads handed to \<^verbatim>\<open>sendall\<close>, with the socket and the
  outcome.
\<close>

definition initial :: tunnel where
  "initial = \<lparr> tcp_socket = None, client_address = None, is_running = True, closed = [],
     pending = [], sessions = [], tcp_in = [], serial_out = [], serial_in = [],
     tcp_out = [] \<rparr>"

datatype loop_ctl = Continue | Break

datatype status = Running | Returned | Propagated py_exc

type_synonym pass_result = "(py_exc \<times> tunnel) + (loop_ctl \<times> tunnel)"

fun state_of :: "pass_result \<Rightarrow> tunnel" where
  "state_of (Inl (e, s)) = s"
| "state_of (Inr (ctl, s)) = s"

text \<open>The payloads of the calls that returned normally.\<close>

definition completed :: "(byte list \<times> io_result) list \<Rightarrow> byte list list" where
  "completed calls = map fst (filter (\<lambda>call. snd call = Done) calls)"

subsection \<open>The serial-to-TCP pump (\<^verbatim>\<open>serial_to_tcp\<close>, lines 19 to 49)\<close>

text \<open>
  One pass through the body of the \<^verbatim>\<open>while\<close> loop (lines 25 to 41).  \<open>Inl\<close> is an
  exception that leaves the body; the inner \<^verbatim>\<open>try\<close> turns a \<^verbatim>\<open>socket.error\<close> of
  \<^verbatim>\<open>sendall\<close> into \<^verbatim>\<open>break\<close>.  The attribute lookup \<^verbatim>\<open>tcp_socket.sendall\<close> raises
  when the global is \<^verbatim>\<open>None\<close>, and so does \<^verbatim>\<open>client_address[0]\<close> in the progress
  line of line 34.
\<close>

definition pump_pass :: "tunnel \<Rightarrow> serial_poll \<Rightarrow> io_result \<Rightarrow> pass_result" where
  "pump_pass s poll sent =
     (case poll of
        PollRaises e \<Rightarrow> Inl (e, s)
      | NoneWaiting \<Rightarrow> Inr (Continue, s)
      | Waiting data \<Rightarrow>
          (let s1 = s\<lparr>serial_in := serial_in s @ [data]\<rparr> in
           if data = [] then Inr (Continue, s1)
           else
             (case tcp_socket s1 of
                None \<Rightarrow> Inl (AttributeError, s1)
              | Some c \<Rightarrow>
                  (let s2 = s1\<lparr>tcp_out := tcp_out s1 @ [(c, data, sent)]\<rparr> in
                   case sent of
                     Done \<Rightarrow>
                       (case client_address s2 of
                          None \<Rightarrow> Inl (TypeError, s2)
                        | Some a \<Rightarrow> Inr (Continue, s2))
                   | Raises e \<Rightarrow>
                       if isinstance_socket_error e then Inr (Break, s2) else Inl (e, s2)))))"

text \<open>
  The loop test of line 24, one pass, and the \<^verbatim>\<open>except\<close> clauses of lines 43 to 46: an
  exception that no clause catches would leave the thread function.
\<close>

definition serial_to_tcp_iter :: "tunnel \<Rightarrow> serial_poll \<times> io_result \<Rightarrow> status \<times> tunnel" where
  "serial_to_tcp_iter s ev =
     (if is_running s \<and> tcp_socket s \<noteq> None then
        (case pump_pass s (fst ev) (snd ev) of
           Inr (Continue, s') \<Rightarrow> (Running, s')
         | Inr (Break, s') \<Rightarrow> (Returned, s')
         | Inl (e, s') \<Rightarrow>
             if isinstance_SerialException e then (Returned, s')
             else if isinstance_Exception e then (Returned, s')
             else (Propagated e, s'))
      else (Returned, s))"

fun serial_to_tcp :: "tunnel \<Rightarrow> (serial_poll \<times> io_result) list \<Rightarrow> status \<times> tunnel" where
  "serial_to_tcp s [] = (Running, s)"
| "serial_to_tcp s (ev # evs) =
     (case serial_to_tcp_iter s ev of
        (Running, s') \<Rightarrow> serial_to_tcp s' evs
      | (Returned, s') \<Rightarrow> (Returned, s')
      | (Propagated e, s') \<Rightarrow> (Propagated e, s'))"

subsection \<open>The TCP-to-serial pump (\<^verbatim>\<open>handle_tcp_client\<close>, lines 52 to 102)\<close>

text \<open>Lines 55 and 56; line 61 to 63 start the serial-to-TCP pump.\<close>

definition handler_start :: "tunnel \<Rightarrow> conn \<Rightarrow> addr \<Rightarrow> tunnel" where
  "handler_start s c a =
     s\<lparr>tcp_socket := Some c, client_address := Some a, sessions := sessions s @ [c]\<rparr>"

text \<open>
  One pass through the body of the receive loop (lines 68 to 88): the buffer is
  filtered into \<^verbatim>\<open>data_to_write\<close>, and \<^verbatim>\<open>ser.write(data)\<close> is called with the buffer
  as it was received.
\<close>

definition tcp_to_serial_pass :: "tunnel \<Rightarrow> recv_result \<Rightarrow> io_result \<Rightarrow> pass_result" where
  "tcp_to_serial_pass s received written =
     (case received of
        RecvRaises e \<Rightarrow> Inl (e, s)
      | Recv data \<Rightarrow>
          (let s1 = s\<lparr>tcp_in := tcp_in s @ [data]\<rparr> in
           if data = [] then Inr (Break, s1)
           else
             (let data_to_write = iac_filter data;
                  s2 = s1\<lparr>serial_out := serial_out s1 @ [(data, written)]\<rparr>
              in case written of
                   Done \<Rightarrow> Inr (Continue, s2)
                 | Raises e \<Rightarrow> Inl (e, s2))))"

datatype loop_exit = Blocked | LoopEnded | Raised py_exc

text \<open>
  The receive loop over the results of the successive calls.  When the results run out
  with the run flag set, the thread is blocked in \<^verbatim>\<open>recv\<close>.
\<close>

fun receive_loop :: "tunnel \<Rightarrow> (recv_result \<times> io_result) list \<Rightarrow> loop_exit \<times> tunnel" where
  "receive_loop s [] = (if is_running s then (Blocked, s) else (LoopEnded, s))"
| "receive_loop s (ev # evs) =
     (if is_running s then
        (case tcp_to_serial_pass s (fst ev) (snd ev) of
           Inr (Continue, s') \<Rightarrow> receive_loop s' evs
         | Inr (Break, s') \<Rightarrow> (LoopEnded, s')
         | Inl (e, s') \<Rightarrow> (Raised e, s'))
      else (LoopEnded, s))"

text \<open>
  Lines 99 to 101, the release of the slot:
  \<^verbatim>\<open>tcp_socket.close(); tcp_socket = None; client_address = None\<close>.
  When the global is \<^verbatim>\<open>None\<close> the attribute lookup of the first statement raises and the
  two assignments are not reached.
\<close>

definition release :: "tunnel \<Rightarrow> py_exc + tunnel" where
  "release s =
     (case tcp_socket s of
        None \<Rightarrow> Inl AttributeError
      | Some c \<Rightarrow> Inr (s\<lparr>closed := closed s @ [c], tcp_socket := None, client_address := None\<rparr>))"

text \<open>The \<^verbatim>\<open>finally\<close> block of the handler, at the end of the thread of connection \<open>c\<close>.\<close>

definition handler_end :: "tunnel \<Rightarrow> conn \<Rightarrow> status \<times> tunnel" where
  "handler_end s c =
     (case release s of
        Inl e \<Rightarrow> (Propagated e, s\<lparr>sessions := remove1 c (sessions s)\<rparr>)
      | Inr s' \<Rightarrow> (Returned, s'\<lparr>sessions := remove1 c (sessions s')\<rparr>))"

definition handle_tcp_client ::
    "tunnel \<Rightarrow> conn \<Rightarrow> addr \<Rightarrow> (recv_result \<times> io_result) list \<Rightarrow> status \<times> tunnel" where
  "handle_tcp_client s c a evs =
     (case receive_loop (handler_start s c a) evs of
        (Blocked, s1) \<Rightarrow> (Running, s1)
      | (LoopEnded, s1) \<Rightarrow> handler_end s1 c
      | (Raised e, s1) \<Rightarrow>
          if isinstance_socket_error e \<or> isinstance_SerialException e \<or> isinstance_Exception e
          then handler_end s1 c
          else (Propagated e, snd (handler_end s1 c)))"

subsection \<open>The listener (\<^verbatim>\<open>start_server\<close>, lines 210 to 225)\<close>

datatype accept_result = NotListening | Rejected | Spawned

text \<open>
  One connection returned by \<^verbatim>\<open>accept\<close>: it is closed when the global \<^verbatim>\<open>tcp_socket\<close> is
  set, and handed to a new handler thread otherwise.
\<close>

definition listener_accept :: "tunnel \<Rightarrow> conn \<Rightarrow> addr \<Rightarrow> accept_result \<times> tunnel" where
  "listener_accept s c a =
     (if \<not> is_running s then (NotListening, s)
      else if tcp_socket s \<noteq> None then (Rejected, s\<lparr>closed := closed s @ [c]\<rparr>)
      else (Spawned, s\<lparr>pending := pending s @ [(c, a)]\<rparr>))"

text \<open>
  The threads run interleaved.  An event is a step of one thread: the listener accepts a
  connection, a handler thread that was created runs its first statements, or a handler
  thread leaves its loop and runs its \<^verbatim>\<open>finally\<close> block.
\<close>

datatype event = Accept conn addr | HandlerStarts conn | HandlerEnds conn

fun step :: "tunnel \<Rightarrow> event \<Rightarrow> tunnel" where
  "step s (Accept c a) = snd (listener_accept s c a)"
| "step s (HandlerStarts c) =
     (case map_of (pending s) c of
        None \<Rightarrow> s
      | Some a \<Rightarrow> handler_start (s\<lparr>pending := remove1 (c, a) (pending s)\<rparr>) c a)"
| "step s (HandlerEnds c) = (if c \<in> set (sessions s) then snd (handler_end s c) else s)"

definition run :: "tunnel \<Rightarrow> event list \<Rightarrow> tunnel" where
  "run s evs = foldl step s evs"

text \<open>
  A schedule without the window between the creation of a handler thread and its first
  statement: every accepted connection is followed at once by the start of its handler.
\<close>

fun prompt :: "event list \<Rightarrow> bool" where
  "prompt [] = True"
| "prompt (Accept c a # HandlerStarts c' # evs) = (c' = c \<and> prompt evs)"
| "prompt (Accept c a # evs) = False"
| "prompt (HandlerStarts c # evs) = prompt evs"
| "prompt (HandlerEnds c # evs) = prompt evs"

text \<open>
  The state between sessions and during one session: no handler waits for its first
  statement, and the slot holds the connection of the only session, if there is one.
\<close>

definition slot_consistent :: "tunnel \<Rightarrow> bool" where
  "slot_consistent s =
     (pending s = [] \<and>
      (case tcp_socket s of None \<Rightarrow> sessions s = [] | Some c \<Rightarrow> sessions s = [c]))"

subsection \<open>The threads interleaved\<close>

text \<open>
  The listener, the handler threads and the pump threads share the globals, and the
  program has no lock and joins no thread.  In the interleaved run every thread has a
  place in its code, and an action is one step of one thread on the shared state:
  between two steps of a thread the others may change the globals.  The steps are cut
  so that an action reads or writes the slot, that is the globals \<^verbatim>\<open>tcp_socket\<close> and
  \<^verbatim>\<open>client_address\<close>, at most once.  A handler thread is named by its connection, and
  the pump thread by the connection of the handler that started it (lines 61 to 63).
\<close>

datatype handler_pc =
  Created addr | Begun addr | Receiving | Leaving | Closed | Cleared | Ended status

datatype pump_pc = Testing | Polling | Sending "byte list" | Reporting | Halted status

record system =
  shared :: tunnel
  handler_of :: "conn \<Rightarrow> handler_pc option"
  pump_of :: "conn \<Rightarrow> pump_pc option"

definition boot :: system where
  "boot = \<lparr> shared = initial, handler_of = (\<lambda>c. None), pump_of = (\<lambda>c. None) \<rparr>"

text \<open>The \<^verbatim>\<open>except\<close> clauses of lines 43 to 46 for an exception that leaves the loop.\<close>

definition pump_except :: "py_exc \<Rightarrow> pump_pc" where
  "pump_except e =
     (if isinstance_SerialException e then Halted Returned
      else if isinstance_Exception e then Halted Returned
      else Halted (Propagated e))"

datatype action =
    Listen conn addr
  | SetSocket conn
  | SetAddress conn
  | Receive conn recv_result io_result
  | Close conn
  | ClearSocket conn
  | ClearAddress conn
  | Test conn
  | Poll conn serial_poll
  | Send conn io_result
  | Report conn
  | Shutdown

text \<open>
  \<open>Listen\<close>: \<^verbatim>\<open>accept\<close> returns a connection and the listener tests the slot (lines 215 to
  225); a connection handle is returned once.  \<open>SetSocket\<close>, \<open>SetAddress\<close>: a handler
  thread that was created runs line 55, then line 56 and the start of its pump (lines
  61 to 63).  \<open>Receive\<close>: a handler makes one pass through its loop (lines 66 to 88);
  every exception is caught by a clause of lines 90 to 95.  \<open>Close\<close>, \<open>ClearSocket\<close>,
  \<open>ClearAddress\<close>: a handler that has left its loop runs the three statements of its
  \<^verbatim>\<open>finally\<close> block (lines 99, 100, 101); the first closes what the global holds then,
  and raises when the global is \<^verbatim>\<open>None\<close>.  \<open>Test\<close>: a pump evaluates its loop test (line
  24).  \<open>Poll\<close>: it polls and reads the serial port (lines 25 to 27).  \<open>Send\<close>: it calls
  \<^verbatim>\<open>tcp_socket.sendall\<close> with the chunk it holds (line 33), on what the global holds
  then.  \<open>Report\<close>: it writes the progress line, which reads \<^verbatim>\<open>client_address\<close> (line
  34).  \<open>Shutdown\<close>: the main thread clears the run flag (line 238).  An action of a
  thread that is not at that place changes nothing.
\<close>

fun exec :: "system \<Rightarrow> action \<Rightarrow> system" where
  "exec \<sigma> (Listen c a) =
     (if handler_of \<sigma> c \<noteq> None then \<sigma>
      else
        (case listener_accept (shared \<sigma>) c a of
           (Spawned, s') \<Rightarrow> \<sigma>\<lparr>shared := s', handler_of := (handler_of \<sigma>)(c \<mapsto> Created a)\<rparr>
         | (Rejected, s') \<Rightarrow> \<sigma>\<lparr>shared := s'\<rparr>
         | (NotListening, s') \<Rightarrow> \<sigma>\<lparr>shared := s'\<rparr>))"
| "exec \<sigma> (SetSocket c) =
     (case handler_of \<sigma> c of
        Some (Created a) \<Rightarrow>
          \<sigma>\<lparr>shared := (shared \<sigma>)\<lparr>pending := remove1 (c, a) (pending (shared \<sigma>)),
                tcp_socket := Some c, sessions := sessions (shared \<sigma>) @ [c]\<rparr>,
            handler_of := (handler_of \<sigma>)(c \<mapsto> Begun a)\<rparr>
      | _ \<Rightarrow> \<sigma>)"
| "exec \<sigma> (SetAddress c) =
     (case handler_of \<sigma> c of
        Some (Begun a) \<Rightarrow>
          \<sigma>\<lparr>shared := (shared \<sigma>)\<lparr>client_address := Some a\<rparr>,
            handler_of := (handler_of \<sigma>)(c \<mapsto> Receiving),
            pump_of := (pump_of \<sigma>)(c \<mapsto> Testing)\<rparr>
      | _ \<Rightarrow> \<sigma>)"
| "exec \<sigma> (Receive c received written) =
     (case handler_of \<sigma> c of
        Some Receiving \<Rightarrow>
          (if is_running (shared \<sigma>) then
             (case tcp_to_serial_pass (shared \<sigma>) received written of
                Inr (Continue, s') \<Rightarrow> \<sigma>\<lparr>shared := s'\<rparr>
              | Inr (Break, s') \<Rightarrow> \<sigma>\<lparr>shared := s', handler_of := (handler_of \<sigma>)(c \<mapsto> Leaving)\<rparr>
              | Inl (e, s') \<Rightarrow> \<sigma>\<lparr>shared := s', handler_of := (handler_of \<sigma>)(c \<mapsto> Leaving)\<rparr>)
           else \<sigma>\<lparr>handler_of := (handler_of \<sigma>)(c \<mapsto> Leaving)\<rparr>)
      | _ \<Rightarrow> \<sigma>)"
| "exec \<sigma> (Close c) =
     (case handler_of \<sigma> c of
        Some Leaving \<Rightarrow>
          (case tcp_socket (shared \<sigma>) of
             None \<Rightarrow>
               \<sigma>\<lparr>shared := (shared \<sigma>)\<lparr>sessions := remove1 c (sessions (shared \<sigma>))\<rparr>,
                 handler_of := (handler_of \<sigma>)(c \<mapsto> Ended (Propagated AttributeError))\<rparr>
           | Some k \<Rightarrow>
               \<sigma>\<lparr>shared := (shared \<sigma>)\<lparr>closed := closed (shared \<sigma>) @ [k]\<rparr>,
                 handler_of := (handler_of \<sigma>)(c \<mapsto> Closed)\<rparr>)
      | _ \<Rightarrow> \<sigma>)"
| "exec \<sigma> (ClearSocket c) =
     (case handler_of \<sigma> c of
        Some Closed \<Rightarrow>
          \<sigma>\<lparr>shared := (shared \<sigma>)\<lparr>tcp_socket := None\<rparr>,
            handler_of := (handler_of \<sigma>)(c \<mapsto> Cleared)\<rparr>
      | _ \<Rightarrow> \<sigma>)"
| "exec \<sigma> (ClearAddress c) =
     (case handler_of \<sigma> c of
        Some Cleared \<Rightarrow>
          \<sigma>\<lparr>shared := (shared \<sigma>)\<lparr>client_address := None,
                sessions := remove1 c (sessions (shared \<sigma>))\<rparr>,
            handler_of := (handler_of \<sigma>)(c \<mapsto> Ended Returned)\<rparr>
      | _ \<Rightarrow> \<sigma>)"
| "exec \<sigma> (Test p) =
     (case pump_of \<sigma> p of
        Some Testing \<Rightarrow>
          \<sigma>\<lparr>pump_of := (pump_of \<sigma>)(p \<mapsto>
              (if is_running (shared \<sigma>) \<and> tcp_socket (shared \<sigma>) \<noteq> None then Polling
               else Halted Returned))\<rparr>
      | _ \<Rightarrow> \<sigma>)"
| "exec \<sigma> (Poll p poll) =
     (case pump_of \<sigma> p of
        Some Polling \<Rightarrow>
          (case poll of
             PollRaises e \<Rightarrow> \<sigma>\<lparr>pump_of := (pump_of \<sigma>)(p \<mapsto> pump_except e)\<rparr>
           | NoneWaiting \<Rightarrow> \<sigma>\<lparr>pump_of := (pump_of \<sigma>)(p \<mapsto> Testing)\<rparr>
           | Waiting data \<Rightarrow>
               \<sigma>\<lparr>shared := (shared \<sigma>)\<lparr>serial_in := serial_in (shared \<sigma>) @ [data]\<rparr>,
                 pump_of := (pump_of \<sigma>)(p \<mapsto> (if data = [] then Testing else Sending data))\<rparr>)
      | _ \<Rightarrow> \<sigma>)"
| "exec \<sigma> (Send p sent) =
     (case pump_of \<sigma> p of
        Some (Sending data) \<Rightarrow>
          (case tcp_socket (shared \<sigma>) of
             None \<Rightarrow> \<sigma>\<lparr>pump_of := (pump_of \<sigma>)(p \<mapsto> pump_except AttributeError)\<rparr>
           | Some k \<Rightarrow>
               \<sigma>\<lparr>shared := (shared \<sigma>)\<lparr>tcp_out := tcp_out (shared \<sigma>) @ [(k, data, sent)]\<rparr>,
                 pump_of := (pump_of \<sigma>)(p \<mapsto>
                   (case sent of
                      Done \<Rightarrow> Reporting
                    | Raises e \<Rightarrow>
                        if isinstance_socket_error e then Halted Returned else pump_except e))\<rparr>)
      | _ \<Rightarrow> \<sigma>)"
| "exec \<sigma> (Report p) =
     (case pump_of \<sigma> p of
        Some Reporting \<Rightarrow>
          (case client_address (shared \<sigma>) of
             None \<Rightarrow> \<sigma>\<lparr>pump_of := (pump_of \<sigma>)(p \<mapsto> pump_except TypeError)\<rparr>
           | Some a \<Rightarrow> \<sigma>\<lparr>pump_of := (pump_of \<sigma>)(p \<mapsto> Testing)\<rparr>)
      | _ \<Rightarrow> \<sigma>)"
| "exec \<sigma> Shutdown = \<sigma>\<lparr>shared := (shared \<sigma>)\<lparr>is_running := False\<rparr>\<rparr>"

definition execs :: "system \<Rightarrow> action list \<Rightarrow> system" where
  "execs \<sigma> acts = foldl exec \<sigma> acts"

text \<open>A pass of the handler in which \<^verbatim>\<open>recv\<close> or \<^verbatim>\<open>ser.write\<close> raises.\<close>

fun fails :: "recv_result \<Rightarrow> io_result \<Rightarrow> bool" where
  "fails (RecvRaises e) written = True"
| "fails (Recv data) (Raises e) = (data \<noteq> [])"
| "fails (Recv data) Done = False"

text \<open>An action of the handler thread of connection \<open>c\<close>.\<close>

fun of_handler :: "conn \<Rightarrow> action \<Rightarrow> bool" where
  "of_handler c (SetSocket k) = (k = c)"
| "of_handler c (SetAddress k) = (k = c)"
| "of_handler c (Receive k received written) = (k = c)"
| "of_handler c (Close k) = (k = c)"
| "of_handler c (ClearSocket k) = (k = c)"
| "of_handler c (ClearAddress k) = (k = c)"
| "of_handler c (Listen k a) = False"
| "of_handler c (Test p) = False"
| "of_handler c (Poll p poll) = False"
| "of_handler c (Send p sent) = False"
| "of_handler c (Report p) = False"
| "of_handler c Shutdown = False"

text \<open>
  The \<^verbatim>\<open>finally\<close> block of handler \<open>c\<close>, statement by statement, with the actions
  \<open>before_close\<close>, \<open>before_socket\<close> and \<open>before_address\<close> of the other threads in front of
  its three statements.
\<close>

definition after_close :: "system \<Rightarrow> conn \<Rightarrow> action list \<Rightarrow> system" where
  "after_close \<sigma> c before_close = exec (execs \<sigma> before_close) (Close c)"

definition after_clear_socket ::
    "system \<Rightarrow> conn \<Rightarrow> action list \<Rightarrow> action list \<Rightarrow> system" where
  "after_clear_socket \<sigma> c before_close before_socket =
     exec (execs (after_close \<sigma> c before_close) before_socket) (ClearSocket c)"

definition after_finally ::
    "system \<Rightarrow> conn \<Rightarrow> action list \<Rightarrow> action list \<Rightarrow> action list \<Rightarrow> system" where
  "after_finally \<sigma> c before_close before_socket before_address =
     exec (execs (after_clear_socket \<sigma> c before_close before_socket) before_address)
       (ClearAddress c)"








subsection \<open>Properties of the filter\<close>

lemma iac_loop_scan: "iac_loop data i acc = acc @ iac_scan (drop i data)"
proof (induction data i acc rule: iac_loop.induct)
  case (1 data i acc)
  show ?case
  proof (cases "i < length data")
    case False
    then show ?thesis by (simp add: iac_loop.simps [of data i acc])
  next
    case True
    then have d: "drop i data = data ! i # drop (Suc i) data"
      by (simp add: Cons_nth_drop_Suc)
    show ?thesis
    proof (cases "data ! i = 0xFF")
      case True
      have three: "i + 3 = Suc (Suc (Suc i))" by simp
      from True \<open>i < length data\<close> "1.IH"(1) d show ?thesis
        by (simp add: iac_loop.simps [of data i acc] three del: One_nat_def)
    next
      case False
      with \<open>i < length data\<close> "1.IH"(2) d show ?thesis
        by (simp add: iac_loop.simps [of data i acc])
    qed
  qed
qed

lemma iac_filter_scan: "iac_filter data = iac_scan data"
  by (simp add: iac_filter_def iac_loop_scan)

lemma iac_scan_plain: "0xFF \<notin> set pre \<Longrightarrow> iac_scan (pre @ rest) = pre @ iac_scan rest"
  by (induction pre) auto

lemma iac_scan_frames:
  "complete_frames front \<Longrightarrow> iac_scan (front @ rest) = iac_scan front @ iac_scan rest"
  by (induction front rule: iac_scan.induct) auto

lemma iac_scan_short: "length rest < 2 \<Longrightarrow> iac_scan (0xFF # rest) = []"
  by simp

lemma iac_scan_subseq: "subseq (iac_scan data) data"
proof (induction data rule: iac_scan.induct)
  case 1
  show ?case by simp
next
  case (2 b bs)
  show ?case
  proof (cases "b = 0xFF")
    case True
    with 2 have "subseq (iac_scan (drop 2 bs)) (drop 2 bs)" by simp
    then have "subseq (iac_scan (drop 2 bs)) (take 2 bs @ drop 2 bs)"
      by (rule subseq_drop_many)
    then have "subseq (iac_scan (drop 2 bs)) bs" by simp
    then have "subseq (iac_scan (drop 2 bs)) (b # bs)" by (rule list_emb_Cons)
    with True show ?thesis by simp
  next
    case False
    with 2 show ?thesis by simp
  qed
qed

lemma iac_scan_no_marker: "0xFF \<notin> set (iac_scan data)"
  by (induction data rule: iac_scan.induct) auto

subsection \<open>Helper lemmas: logs\<close>


lemma completed_all_done:
  "\<forall>call \<in> set calls. snd call = Done \<Longrightarrow> completed calls = map fst calls"
  by (induction calls) (auto simp: completed_def)

lemma completed_prefix_snoc:
  assumes "\<forall>call \<in> set calls. snd call = Done"
  shows "prefix (completed (calls @ [(data, r)])) (map fst (calls @ [(data, r)]))"
proof (cases "r = Done")
  case True
  with assms have "completed (calls @ [(data, r)]) = map fst (calls @ [(data, r)])"
    by (intro completed_all_done) auto
  then show ?thesis by simp
next
  case False
  then have "completed (calls @ [(data, r)]) = completed calls" by (simp add: completed_def)
  with assms show ?thesis by (simp add: completed_all_done)
qed


subsection \<open>Helper lemmas: the TCP-to-serial pump\<close>

lemma tcp_to_serial_pass_cases:
  "tcp_to_serial_pass s (RecvRaises e) w = Inl (e, s)"
  "tcp_to_serial_pass s (Recv []) w = Inr (Break, s\<lparr>tcp_in := tcp_in s @ [[]]\<rparr>)"
  "data \<noteq> [] \<Longrightarrow> tcp_to_serial_pass s (Recv data) Done =
     Inr (Continue, s\<lparr>tcp_in := tcp_in s @ [data], serial_out := serial_out s @ [(data, Done)]\<rparr>)"
  "data \<noteq> [] \<Longrightarrow> tcp_to_serial_pass s (Recv data) (Raises e) =
     Inl (e, s\<lparr>tcp_in := tcp_in s @ [data], serial_out := serial_out s @ [(data, Raises e)]\<rparr>)"
  by (simp_all add: tcp_to_serial_pass_def Let_def)

lemma receive_loop_rule:
  assumes start: "P s"
    and continue: "\<And>s r w s'. P s \<Longrightarrow> tcp_to_serial_pass s r w = Inr (Continue, s') \<Longrightarrow> P s'"
    and leave: "\<And>s r w. P s \<Longrightarrow> Q (state_of (tcp_to_serial_pass s r w))"
    and stay: "\<And>s. P s \<Longrightarrow> Q s"
  shows "Q (snd (receive_loop s evs))"
  using start
proof (induction evs arbitrary: s)
  case Nil
  then show ?case by (simp add: stay)
next
  case (Cons ev evs)
  show ?case
  proof (cases "is_running s")
    case False
    with Cons.prems show ?thesis by (simp add: stay)
  next
    case True
    show ?thesis
    proof (cases "tcp_to_serial_pass s (fst ev) (snd ev)")
      case (Inl x)
      obtain e s' where "x = (e, s')" by (cases x)
      with Inl True leave [OF Cons.prems, of "fst ev" "snd ev"] show ?thesis by simp
    next
      case (Inr y)
      obtain ctl s' where y: "y = (ctl, s')" by (cases y)
      show ?thesis
      proof (cases ctl)
        case Continue
        with Inr y have "P s'" using continue [OF Cons.prems] by simp
        then have "Q (snd (receive_loop s' evs))" by (rule Cons.IH)
        with Inr y Continue True show ?thesis by simp
      next
        case Break
        with Inr y True leave [OF Cons.prems, of "fst ev" "snd ev"] show ?thesis by simp
      qed
    qed
  qed
qed

lemma tcp_to_serial_pass_payloads:
  "map fst (serial_out s) = filter (\<lambda>b. b \<noteq> []) (tcp_in s) \<Longrightarrow>
   map fst (serial_out (state_of (tcp_to_serial_pass s r w))) =
     filter (\<lambda>b. b \<noteq> []) (tcp_in (state_of (tcp_to_serial_pass s r w)))"
  by (cases r; cases w) (auto simp: tcp_to_serial_pass_def Let_def)

lemma receive_loop_payloads:
  assumes "map fst (serial_out s) = filter (\<lambda>b. b \<noteq> []) (tcp_in s)"
  shows "map fst (serial_out (snd (receive_loop s evs))) =
     filter (\<lambda>b. b \<noteq> []) (tcp_in (snd (receive_loop s evs)))"
proof (rule receive_loop_rule
    [where P = "\<lambda>t. map fst (serial_out t) = filter (\<lambda>b. b \<noteq> []) (tcp_in t)"])
  show "map fst (serial_out s) = filter (\<lambda>b. b \<noteq> []) (tcp_in s)" by (rule assms)
next
  fix t r w t'
  assume "map fst (serial_out t) = filter (\<lambda>b. b \<noteq> []) (tcp_in t)"
    and "tcp_to_serial_pass t r w = Inr (Continue, t')"
  with tcp_to_serial_pass_payloads [of t r w]
  show "map fst (serial_out t') = filter (\<lambda>b. b \<noteq> []) (tcp_in t')" by simp
qed (simp_all add: tcp_to_serial_pass_payloads)



lemma tcp_to_serial_pass_globals:
  "tcp_socket (state_of (tcp_to_serial_pass s r w)) = tcp_socket s
   \<and> client_address (state_of (tcp_to_serial_pass s r w)) = client_address s
   \<and> is_running (state_of (tcp_to_serial_pass s r w)) = is_running s
   \<and> closed (state_of (tcp_to_serial_pass s r w)) = closed s
   \<and> sessions (state_of (tcp_to_serial_pass s r w)) = sessions s
   \<and> pending (state_of (tcp_to_serial_pass s r w)) = pending s"
  by (cases r; cases w) (simp_all add: tcp_to_serial_pass_def Let_def)

lemma receive_loop_globals:
  "tcp_socket (snd (receive_loop s evs)) = tcp_socket s
   \<and> client_address (snd (receive_loop s evs)) = client_address s
   \<and> is_running (snd (receive_loop s evs)) = is_running s
   \<and> closed (snd (receive_loop s evs)) = closed s
   \<and> sessions (snd (receive_loop s evs)) = sessions s
   \<and> pending (snd (receive_loop s evs)) = pending s"
proof (rule receive_loop_rule [where P = "\<lambda>t. tcp_socket t = tcp_socket s
   \<and> client_address t = client_address s \<and> is_running t = is_running s
   \<and> closed t = closed s \<and> sessions t = sessions s \<and> pending t = pending s"])
  fix t r w t'
  assume "tcp_socket t = tcp_socket s
   \<and> client_address t = client_address s \<and> is_running t = is_running s
   \<and> closed t = closed s \<and> sessions t = sessions s \<and> pending t = pending s"
    and "tcp_to_serial_pass t r w = Inr (Continue, t')"
  with tcp_to_serial_pass_globals [of t r w]
  show "tcp_socket t' = tcp_socket s
   \<and> client_address t' = client_address s \<and> is_running t' = is_running s
   \<and> closed t' = closed s \<and> sessions t' = sessions s \<and> pending t' = pending s" by simp
qed (simp_all add: tcp_to_serial_pass_globals)

subsection \<open>Helper lemmas: the serial-to-TCP pump\<close>

lemma serial_to_tcp_rule:
  assumes start: "P s"
    and continue: "\<And>s ev s'. P s \<Longrightarrow> serial_to_tcp_iter s ev = (Running, s') \<Longrightarrow> P s'"
    and leave: "\<And>s ev. P s \<Longrightarrow> Q (snd (serial_to_tcp_iter s ev))"
    and stay: "\<And>s. P s \<Longrightarrow> Q s"
  shows "Q (snd (serial_to_tcp s evs))"
  using start
proof (induction evs arbitrary: s)
  case Nil
  then show ?case by (simp add: stay)
next
  case (Cons ev evs)
  obtain st s' where it: "serial_to_tcp_iter s ev = (st, s')"
    by (cases "serial_to_tcp_iter s ev")
  show ?case
  proof (cases st)
    case Running
    with it have "P s'" using continue [OF Cons.prems] by simp
    then have "Q (snd (serial_to_tcp s' evs))" by (rule Cons.IH)
    with it Running show ?thesis by simp
  next
    case Returned
    with it leave [OF Cons.prems, of ev] show ?thesis by simp
  next
    case (Propagated e)
    with it leave [OF Cons.prems, of ev] show ?thesis by simp
  qed
qed

lemma every_py_exc_is_Exception [simp]: "isinstance_Exception e"
  by (cases e) simp_all

lemma serial_to_tcp_iter_not_propagated: "fst (serial_to_tcp_iter s ev) \<noteq> Propagated e"
  by (cases ev)
    (auto simp: serial_to_tcp_iter_def pump_pass_def Let_def
      split: serial_poll.splits io_result.splits option.splits)

lemma serial_to_tcp_not_propagated: "fst (serial_to_tcp s evs) \<noteq> Propagated e"
proof (induction evs arbitrary: s)
  case Nil
  show ?case by simp
next
  case (Cons ev evs)
  obtain st s' where it: "serial_to_tcp_iter s ev = (st, s')"
    by (cases "serial_to_tcp_iter s ev")
  with serial_to_tcp_iter_not_propagated [of s ev] Cons.IH [of s'] show ?case
    by (cases st) simp_all
qed

lemma serial_to_tcp_iter_globals:
  "tcp_socket (snd (serial_to_tcp_iter s ev)) = tcp_socket s
   \<and> client_address (snd (serial_to_tcp_iter s ev)) = client_address s
   \<and> is_running (snd (serial_to_tcp_iter s ev)) = is_running s
   \<and> closed (snd (serial_to_tcp_iter s ev)) = closed s
   \<and> sessions (snd (serial_to_tcp_iter s ev)) = sessions s
   \<and> pending (snd (serial_to_tcp_iter s ev)) = pending s"
  by (cases ev)
    (auto simp: serial_to_tcp_iter_def pump_pass_def Let_def
      split: serial_poll.splits io_result.splits option.splits)

lemma serial_to_tcp_globals:
  "tcp_socket (snd (serial_to_tcp s evs)) = tcp_socket s
   \<and> client_address (snd (serial_to_tcp s evs)) = client_address s
   \<and> is_running (snd (serial_to_tcp s evs)) = is_running s
   \<and> closed (snd (serial_to_tcp s evs)) = closed s
   \<and> sessions (snd (serial_to_tcp s evs)) = sessions s
   \<and> pending (snd (serial_to_tcp s evs)) = pending s"
proof (rule serial_to_tcp_rule [where P = "\<lambda>t. tcp_socket t = tcp_socket s
   \<and> client_address t = client_address s \<and> is_running t = is_running s
   \<and> closed t = closed s \<and> sessions t = sessions s \<and> pending t = pending s"])
  fix t ev t'
  assume "tcp_socket t = tcp_socket s
   \<and> client_address t = client_address s \<and> is_running t = is_running s
   \<and> closed t = closed s \<and> sessions t = sessions s \<and> pending t = pending s"
    and "serial_to_tcp_iter t ev = (Running, t')"
  with serial_to_tcp_iter_globals [of t ev]
  show "tcp_socket t' = tcp_socket s
   \<and> client_address t' = client_address s \<and> is_running t' = is_running s
   \<and> closed t' = closed s \<and> sessions t' = sessions s \<and> pending t' = pending s" by simp
qed (simp_all add: serial_to_tcp_iter_globals)

lemma serial_to_tcp_iter_payloads:
  "map (\<lambda>call. fst (snd call)) (tcp_out s) = filter (\<lambda>b. b \<noteq> []) (serial_in s) \<Longrightarrow>
   map (\<lambda>call. fst (snd call)) (tcp_out (snd (serial_to_tcp_iter s ev))) =
     filter (\<lambda>b. b \<noteq> []) (serial_in (snd (serial_to_tcp_iter s ev)))"
  by (cases ev)
    (auto simp: serial_to_tcp_iter_def pump_pass_def Let_def
      split: serial_poll.splits io_result.splits option.splits)

lemma serial_to_tcp_payloads:
  assumes "map (\<lambda>call. fst (snd call)) (tcp_out s) = filter (\<lambda>b. b \<noteq> []) (serial_in s)"
  shows "map (\<lambda>call. fst (snd call)) (tcp_out (snd (serial_to_tcp s evs))) =
     filter (\<lambda>b. b \<noteq> []) (serial_in (snd (serial_to_tcp s evs)))"
proof (rule serial_to_tcp_rule
    [where P = "\<lambda>t. map (\<lambda>call. fst (snd call)) (tcp_out t) = filter (\<lambda>b. b \<noteq> []) (serial_in t)"])
  show "map (\<lambda>call. fst (snd call)) (tcp_out s) = filter (\<lambda>b. b \<noteq> []) (serial_in s)" by (rule assms)
next
  fix t ev t'
  assume "map (\<lambda>call. fst (snd call)) (tcp_out t) = filter (\<lambda>b. b \<noteq> []) (serial_in t)"
    and "serial_to_tcp_iter t ev = (Running, t')"
  with serial_to_tcp_iter_payloads [of t ev]
  show "map (\<lambda>call. fst (snd call)) (tcp_out t') = filter (\<lambda>b. b \<noteq> []) (serial_in t')" by simp
qed (simp_all add: serial_to_tcp_iter_payloads)

lemma serial_to_tcp_iter_log:
  "tcp_out (snd (serial_to_tcp_iter s ev)) = tcp_out s
   \<or> (\<exists>c data r. tcp_out (snd (serial_to_tcp_iter s ev)) = tcp_out s @ [(c, data, r)]
        \<and> (r = Done \<or> fst (serial_to_tcp_iter s ev) \<noteq> Running))"
  by (cases ev)
    (auto simp: serial_to_tcp_iter_def pump_pass_def Let_def
      split: serial_poll.splits io_result.splits option.splits)

lemma serial_to_tcp_iter_done:
  assumes "\<forall>call \<in> set (tcp_out s). snd (snd call) = Done"
  shows "serial_to_tcp_iter s ev = (Running, s') \<Longrightarrow>
           \<forall>call \<in> set (tcp_out s'). snd (snd call) = Done"
    and "prefix (completed (map snd (tcp_out (snd (serial_to_tcp_iter s ev)))))
           (map (\<lambda>call. fst (snd call)) (tcp_out (snd (serial_to_tcp_iter s ev))))"
proof -
  show "serial_to_tcp_iter s ev = (Running, s') \<Longrightarrow>
           \<forall>call \<in> set (tcp_out s'). snd (snd call) = Done"
    using assms serial_to_tcp_iter_log [of s ev] by auto
next
  from assms have d: "\<forall>call \<in> set (map snd (tcp_out s)). snd call = Done" by simp
  from serial_to_tcp_iter_log [of s ev]
  show "prefix (completed (map snd (tcp_out (snd (serial_to_tcp_iter s ev)))))
           (map (\<lambda>call. fst (snd call)) (tcp_out (snd (serial_to_tcp_iter s ev))))"
  proof
    assume "tcp_out (snd (serial_to_tcp_iter s ev)) = tcp_out s"
    with d show ?thesis by (simp add: completed_all_done comp_def)
  next
    assume "\<exists>c data r. tcp_out (snd (serial_to_tcp_iter s ev)) = tcp_out s @ [(c, data, r)]
        \<and> (r = Done \<or> fst (serial_to_tcp_iter s ev) \<noteq> Running)"
    then obtain c data r
      where "tcp_out (snd (serial_to_tcp_iter s ev)) = tcp_out s @ [(c, data, r)]" by blast
    with completed_prefix_snoc [OF d, of data r] show ?thesis by (simp add: comp_def)
  qed
qed

lemma serial_to_tcp_completed:
  assumes "\<forall>call \<in> set (tcp_out s). snd (snd call) = Done"
  shows "prefix (completed (map snd (tcp_out (snd (serial_to_tcp s evs)))))
           (map (\<lambda>call. fst (snd call)) (tcp_out (snd (serial_to_tcp s evs))))"
proof (rule serial_to_tcp_rule
    [where P = "\<lambda>t. \<forall>call \<in> set (tcp_out t). snd (snd call) = Done"])
  show "\<forall>call \<in> set (tcp_out s). snd (snd call) = Done" by (rule assms)
next
  fix t
  assume "\<forall>call \<in> set (tcp_out t). snd (snd call) = Done"
  then have "\<forall>call \<in> set (map snd (tcp_out t)). snd call = Done" by simp
  then show "prefix (completed (map snd (tcp_out t))) (map (\<lambda>call. fst (snd call)) (tcp_out t))"
    by (simp add: completed_all_done comp_def)
qed (simp_all add: serial_to_tcp_iter_done)

subsection \<open>Helper lemmas: the handler and the listener\<close>

lemma handler_end_occupied:
  "tcp_socket s = Some c \<Longrightarrow>
   handler_end s c' =
     (Returned, s\<lparr>closed := closed s @ [c], tcp_socket := None, client_address := None,
        sessions := remove1 c' (sessions s)\<rparr>)"
  by (simp add: handler_end_def release_def)

lemma handler_end_logs:
  "tcp_in (snd (handler_end s c)) = tcp_in s
   \<and> serial_out (snd (handler_end s c)) = serial_out s"
  by (simp add: handler_end_def release_def split: option.splits)

lemma handle_tcp_client_logs:
  "tcp_in (snd (handle_tcp_client s c a evs)) = tcp_in (snd (receive_loop (handler_start s c a) evs))
   \<and> serial_out (snd (handle_tcp_client s c a evs)) =
       serial_out (snd (receive_loop (handler_start s c a) evs))"
proof -
  obtain ex s1 where r: "receive_loop (handler_start s c a) evs = (ex, s1)"
    by (cases "receive_loop (handler_start s c a) evs")
  then show ?thesis
    by (cases ex) (simp_all add: handle_tcp_client_def handler_end_logs)
qed

lemma handle_tcp_client_finished:
  assumes "fst (receive_loop (handler_start s c a) evs) \<noteq> Blocked"
  shows "handle_tcp_client s c a evs =
     (Returned, (snd (receive_loop (handler_start s c a) evs))
        \<lparr>closed := closed s @ [c], tcp_socket := None, client_address := None,
         sessions := remove1 c (sessions s @ [c])\<rparr>)"
proof -
  obtain ex s1 where r: "receive_loop (handler_start s c a) evs = (ex, s1)"
    by (cases "receive_loop (handler_start s c a) evs")
  from receive_loop_globals [of "handler_start s c a" evs] r
  have g: "tcp_socket s1 = Some c" "closed s1 = closed s" "sessions s1 = sessions s @ [c]"
    by (simp_all add: handler_start_def)
  from g(1) have "handler_end s1 c =
     (Returned, s1\<lparr>closed := closed s1 @ [c], tcp_socket := None, client_address := None,
        sessions := remove1 c (sessions s1)\<rparr>)"
    by (rule handler_end_occupied)
  with assms r g show ?thesis
    by (cases ex) (simp_all add: handle_tcp_client_def)
qed

lemma handle_tcp_client_returned:
  "fst (handle_tcp_client s c a evs) = Returned \<Longrightarrow>
   fst (receive_loop (handler_start s c a) evs) \<noteq> Blocked"
  by (cases "receive_loop (handler_start s c a) evs") (auto simp: handle_tcp_client_def)

lemma receive_loop_raised_running: "fst (receive_loop s evs) = Raised e \<Longrightarrow> is_running s"
  by (cases evs) (auto split: if_splits)

lemma listener_accept_cases:
  "is_running s \<Longrightarrow> tcp_socket s = None \<Longrightarrow>
     listener_accept s c a = (Spawned, s\<lparr>pending := pending s @ [(c, a)]\<rparr>)"
  "is_running s \<Longrightarrow> tcp_socket s = Some c' \<Longrightarrow>
     listener_accept s c a = (Rejected, s\<lparr>closed := closed s @ [c]\<rparr>)"
  by (simp_all add: listener_accept_def)

lemma serial_to_tcp_iter_no_client:
  "tcp_socket s = None \<Longrightarrow> serial_to_tcp_iter s ev = (Returned, s)"
  by (simp add: serial_to_tcp_iter_def)

lemma serial_to_tcp_iter_send_fails:
  "is_running s \<Longrightarrow> tcp_socket s = Some c \<Longrightarrow> data \<noteq> [] \<Longrightarrow>
   serial_to_tcp_iter s (Waiting data, Raises e) =
     (Returned, s\<lparr>serial_in := serial_in s @ [data],
        tcp_out := tcp_out s @ [(c, data, Raises e)]\<rparr>)"
  by (simp add: serial_to_tcp_iter_def pump_pass_def Let_def)

lemma serial_to_tcp_iter_poll_fails:
  "serial_to_tcp_iter s (PollRaises e, sent) = (Returned, s)"
  by (simp add: serial_to_tcp_iter_def pump_pass_def)

subsection \<open>Helper lemmas: the interleaved run\<close>

lemma execs_Nil [simp]: "execs \<sigma> [] = \<sigma>"
  by (simp add: execs_def)

lemma execs_Cons [simp]: "execs \<sigma> (a # acts) = execs (exec \<sigma> a) acts"
  by (simp add: execs_def)

lemma execs_append: "execs \<sigma> (acts @ rest) = execs (execs \<sigma> acts) rest"
  by (simp add: execs_def)

lemma pump_except_returns [simp]: "pump_except e = Halted Returned"
  by (simp add: pump_except_def)

text \<open>
  Run without a step of another thread in between, the statements of the interleaved
  run give what the thread functions run on their own give.
\<close>

lemma begin_is_handler_start:
  assumes "handler_of \<sigma> c = Some (Created a)"
  shows "shared (execs \<sigma> [SetSocket c, SetAddress c]) =
     handler_start ((shared \<sigma>)\<lparr>pending := remove1 (c, a) (pending (shared \<sigma>))\<rparr>) c a"
  using assms by (simp add: handler_start_def)

lemma finally_is_handler_end:
  assumes "handler_of \<sigma> c = Some Leaving"
  shows "shared (execs \<sigma> [Close c, ClearSocket c, ClearAddress c]) = snd (handler_end (shared \<sigma>) c)"
    and "handler_of (execs \<sigma> [Close c, ClearSocket c, ClearAddress c]) c =
      Some (Ended (fst (handler_end (shared \<sigma>) c)))"
  using assms by (simp_all add: handler_end_def release_def split: option.splits)

lemma pass_is_pump_pass:
  assumes "pump_of \<sigma> p = Some Polling"
  shows "shared (execs \<sigma> [Poll p poll, Send p sent, Report p]) =
     state_of (pump_pass (shared \<sigma>) poll sent)"
  using assms
  by (cases poll; cases sent)
    (auto simp: pump_pass_def Let_def split: option.splits)

lemma exec_keeps_handler:
  assumes "handler_of \<sigma> c = Some pc" and "\<not> of_handler c a"
  shows "handler_of (exec \<sigma> a) c = Some pc"
proof (cases a)
  case (Listen k a')
  with assms show ?thesis
    by (cases "listener_accept (shared \<sigma>) k a'"; cases "fst (listener_accept (shared \<sigma>) k a')")
      auto
next
  case (SetSocket k)
  with assms show ?thesis by (auto split: option.splits handler_pc.splits)
next
  case (SetAddress k)
  with assms show ?thesis by (auto split: option.splits handler_pc.splits)
next
  case (Receive k received written)
  with assms show ?thesis
    by (auto split: option.splits handler_pc.splits sum.splits loop_ctl.splits)
next
  case (Close k)
  with assms show ?thesis by (auto split: option.splits handler_pc.splits)
next
  case (ClearSocket k)
  with assms show ?thesis by (auto split: option.splits handler_pc.splits)
next
  case (ClearAddress k)
  with assms show ?thesis by (auto split: option.splits handler_pc.splits)
next
  case (Test p)
  with assms show ?thesis by (auto split: option.splits pump_pc.splits)
next
  case (Poll p poll)
  with assms show ?thesis by (auto split: option.splits pump_pc.splits serial_poll.splits)
next
  case (Send p sent)
  with assms show ?thesis by (auto split: option.splits pump_pc.splits)
next
  case (Report p)
  with assms show ?thesis by (auto split: option.splits pump_pc.splits)
next
  case Shutdown
  with assms show ?thesis by simp
qed

lemma execs_keeps_handler:
  "handler_of \<sigma> c = Some pc \<Longrightarrow> list_all (\<lambda>a. \<not> of_handler c a) others \<Longrightarrow>
   handler_of (execs \<sigma> others) c = Some pc"
proof (induction others arbitrary: \<sigma>)
  case Nil
  then show ?case by simp
next
  case (Cons a others)
  from Cons.prems have "handler_of (exec \<sigma> a) c = Some pc"
    by (intro exec_keeps_handler) auto
  with Cons.IH [of "exec \<sigma> a"] Cons.prems(2) show ?case by simp
qed

lemma exec_keeps_closed:
  "c \<in> set (closed (shared \<sigma>)) \<Longrightarrow> c \<in> set (closed (shared (exec \<sigma> a)))"
proof (cases a)
  case (Listen k a')
  assume "c \<in> set (closed (shared \<sigma>))"
  with Listen show ?thesis
    by (auto simp: listener_accept_def)
next
  case (Receive k received written)
  assume "c \<in> set (closed (shared \<sigma>))"
  with Receive tcp_to_serial_pass_globals [of "shared \<sigma>" received written] show ?thesis
    by (auto split: option.splits handler_pc.splits sum.splits loop_ctl.splits)
qed (auto split: option.splits handler_pc.splits pump_pc.splits serial_poll.splits)

lemma execs_keeps_closed:
  "c \<in> set (closed (shared \<sigma>)) \<Longrightarrow> c \<in> set (closed (shared (execs \<sigma> acts)))"
proof (induction acts arbitrary: \<sigma>)
  case Nil
  then show ?case by simp
next
  case (Cons a acts)
  from Cons.prems have "c \<in> set (closed (shared (exec \<sigma> a)))" by (rule exec_keeps_closed)
  then show ?case by (simp add: Cons.IH del: exec.simps)
qed

lemma receive_fails_leaves:
  assumes "handler_of \<sigma> c = Some Receiving" and "is_running (shared \<sigma>)" and "fails received written"
  shows "handler_of (exec \<sigma> (Receive c received written)) c = Some Leaving"
  using assms
  by (cases received; cases written) (simp_all add: tcp_to_serial_pass_cases)

lemma receive_empty_leaves:
  assumes "handler_of \<sigma> c = Some Receiving"
  shows "handler_of (exec \<sigma> (Receive c (Recv []) written)) c = Some Leaving"
  using assms by (simp add: tcp_to_serial_pass_cases)

lemma leaving_handler_teardown:
  assumes leaving: "handler_of \<sigma> c = Some Leaving"
    and others: "list_all (\<lambda>a. \<not> of_handler c a) before_close"
      "list_all (\<lambda>a. \<not> of_handler c a) before_socket"
      "list_all (\<lambda>a. \<not> of_handler c a) before_address"
    and own: "tcp_socket (shared (execs \<sigma> before_close)) = Some c"
  shows "c \<in> set (closed (shared (after_close \<sigma> c before_close)))"
    and "tcp_socket (shared (after_clear_socket \<sigma> c before_close before_socket)) = None"
    and "handler_of (after_finally \<sigma> c before_close before_socket before_address) c =
      Some (Ended Returned)"
    and "c \<in> set (closed (shared (after_finally \<sigma> c before_close before_socket before_address)))"
proof -
  from leaving others(1) have "handler_of (execs \<sigma> before_close) c = Some Leaving"
    by (rule execs_keeps_handler)
  with own have 1: "handler_of (after_close \<sigma> c before_close) c = Some Closed"
    and 2: "c \<in> set (closed (shared (after_close \<sigma> c before_close)))"
    by (simp_all add: after_close_def)
  from 2 show "c \<in> set (closed (shared (after_close \<sigma> c before_close)))" .
  from 1 others(2)
  have 3: "handler_of (execs (after_close \<sigma> c before_close) before_socket) c = Some Closed"
    by (rule execs_keeps_handler)
  then show 4: "tcp_socket (shared (after_clear_socket \<sigma> c before_close before_socket)) = None"
    by (simp add: after_clear_socket_def)
  from 3 have "handler_of (after_clear_socket \<sigma> c before_close before_socket) c = Some Cleared"
    by (simp add: after_clear_socket_def)
  from this others(3)
  have "handler_of (execs (after_clear_socket \<sigma> c before_close before_socket) before_address) c =
      Some Cleared"
    by (rule execs_keeps_handler)
  then show "handler_of (after_finally \<sigma> c before_close before_socket before_address) c =
      Some (Ended Returned)"
    by (simp add: after_finally_def)
  from 2 have "c \<in> set (closed (shared (execs (after_close \<sigma> c before_close) before_socket)))"
    by (rule execs_keeps_closed)
  then have "c \<in> set (closed (shared (after_clear_socket \<sigma> c before_close before_socket)))"
    unfolding after_clear_socket_def by (rule exec_keeps_closed)
  then have "c \<in> set (closed (shared
      (execs (after_clear_socket \<sigma> c before_close before_socket) before_address)))"
    by (rule execs_keeps_closed)
  then show "c \<in> set (closed (shared
      (after_finally \<sigma> c before_close before_socket before_address)))"
    unfolding after_finally_def by (rule exec_keeps_closed)
qed

text \<open>
  The handler whose \<^verbatim>\<open>recv\<close> returns no data, in a run in which the slot holds its own
  connection when line 99 runs: the connection is closed, the slot is cleared and the
  handler returns, whatever the other threads do in between.
\<close>

lemma zero_length_receive_teardown:
  assumes receiving: "handler_of \<sigma> c = Some Receiving"
    and others: "list_all (\<lambda>a. \<not> of_handler c a) before_close"
      "list_all (\<lambda>a. \<not> of_handler c a) before_socket"
      "list_all (\<lambda>a. \<not> of_handler c a) before_address"
    and own: "tcp_socket (shared (execs (exec \<sigma> (Receive c (Recv []) written)) before_close)) =
      Some c"
  shows "handler_of (exec \<sigma> (Receive c (Recv []) written)) c = Some Leaving"
    and "c \<in> set (closed (shared
      (after_close (exec \<sigma> (Receive c (Recv []) written)) c before_close)))"
    and "tcp_socket (shared (after_clear_socket (exec \<sigma> (Receive c (Recv []) written)) c
      before_close before_socket)) = None"
    and "handler_of (after_finally (exec \<sigma> (Receive c (Recv []) written)) c
      before_close before_socket before_address) c = Some (Ended Returned)"
proof -
  from receiving
  show leaving: "handler_of (exec \<sigma> (Receive c (Recv []) written)) c = Some Leaving"
    by (rule receive_empty_leaves)
  from leaving others own
  show "c \<in> set (closed (shared
      (after_close (exec \<sigma> (Receive c (Recv []) written)) c before_close)))"
    by (rule leaving_handler_teardown(1))
  from leaving others own
  show "tcp_socket (shared (after_clear_socket (exec \<sigma> (Receive c (Recv []) written)) c
      before_close before_socket)) = None"
    by (rule leaving_handler_teardown(2))
  from leaving others own
  show "handler_of (after_finally (exec \<sigma> (Receive c (Recv []) written)) c
      before_close before_socket before_address) c = Some (Ended Returned)"
    by (rule leaving_handler_teardown(3))
qed

























subsection \<open>Claims about the filter\<close>

text \<open>
  Claim C1.  Every three-byte sequence that the scan meets, a marker with the two bytes
  after it, is removed as a unit, and the scan goes on behind it: in front of such a
  sequence and behind it the result is what the filter gives for those parts alone.
  The bytes in front of the first marker pass through unchanged and in order, and a
  buffer without a marker is returned as it is.  The buffer
  \<open>[0x41, 0xFF, 0xFB, 0x01, 0x42]\<close> filters to \<open>[0x41, 0x42]\<close>.
\<close>

theorem iac_filter_removes_groups:
  "(complete_frames front \<longrightarrow>
      iac_filter (front @ 0xFF # cmd # opt # rest) = iac_filter front @ iac_filter rest)
   \<and> (0xFF \<notin> set pre \<longrightarrow> iac_filter (pre @ rest) = pre @ iac_filter rest)
   \<and> (0xFF \<notin> set pre \<longrightarrow> iac_filter pre = pre)
   \<and> iac_filter [0x41, 0xFF, 0xFB, 0x01, 0x42] = [0x41, 0x42]"
proof (intro conjI impI)
  assume "complete_frames front"
  then have "iac_scan (front @ 0xFF # cmd # opt # rest) =
      iac_scan front @ iac_scan (0xFF # cmd # opt # rest)"
    by (rule iac_scan_frames)
  then show "iac_filter (front @ 0xFF # cmd # opt # rest) = iac_filter front @ iac_filter rest"
    by (simp add: iac_filter_scan)
next
  assume "0xFF \<notin> set pre"
  then show "iac_filter (pre @ rest) = pre @ iac_filter rest"
    by (simp add: iac_filter_scan iac_scan_plain)
next
  assume "0xFF \<notin> set pre"
  then have "iac_scan (pre @ []) = pre @ iac_scan []" by (rule iac_scan_plain)
  then show "iac_filter pre = pre" by (simp add: iac_filter_scan)
next
  show "iac_filter [0x41, 0xFF, 0xFB, 0x01, 0x42] = [0x41, 0x42]"
    by (simp add: iac_filter_scan)
qed

theorem iac_filter_removes_groups_witness:
  "complete_frames [0x41, 0xFF, 0xFB, 0x01]
   \<and> iac_filter ([0x41, 0xFF, 0xFB, 0x01] @ 0xFF # 0xFD # 0x03 # [0x42]) = [0x41, 0x42]
   \<and> (0xFF::byte) \<notin> set [0x41, 0x43]
   \<and> iac_filter ([0x41, 0x43] @ [0xFF, 0xFB, 0x01, 0x42]) = [0x41, 0x43, 0x42]
   \<and> iac_filter [0x41, 0x43] = [0x41, 0x43]"
proof -
  have f: "complete_frames [0x41, 0xFF, 0xFB, 0x01]" by simp
  have h: "(0xFF::byte) \<notin> set [0x41, 0x43]" by simp
  have r: "iac_filter [0x41, 0xFF, 0xFB, 0x01] = [0x41]" "iac_filter [0x42] = [0x42]"
    "iac_filter [0xFF, 0xFB, 0x01, 0x42] = [0x42]"
    by (simp_all add: iac_filter_def iac_loop.simps)
  from f h r
    iac_filter_removes_groups [of "[0x41, 0xFF, 0xFB, 0x01]" "0xFD" "0x03" "[0x42]" "[0x41, 0x43]"]
    iac_filter_removes_groups [of "[]" "0xFD" "0x03" "[0xFF, 0xFB, 0x01, 0x42]" "[0x41, 0x43]"]
  show ?thesis by simp
qed

text \<open>
  Claim C6.  When the scan reaches a marker that has fewer than two bytes behind it in
  the buffer, the marker and everything up to the end of the buffer are dropped: the
  result is that of the part in front.  The filter is a function of the one buffer it is
  given, so nothing is kept for the next call: the bytes \<open>0xFB, 0x01\<close>, which would
  have completed the sequence cut at the end of \<open>[0x41, 0xFF]\<close>, pass through when they
  come in the next buffer.
\<close>

theorem iac_filter_truncated:
  "(complete_frames front \<and> length rest < 2 \<longrightarrow>
      iac_filter (front @ 0xFF # rest) = iac_filter front)
   \<and> map iac_filter [[0x41, 0xFF], [0xFB, 0x01, 0x42]] = [[0x41], [0xFB, 0x01, 0x42]]"
proof (intro conjI impI)
  assume a: "complete_frames front \<and> length rest < 2"
  then have "iac_scan (front @ 0xFF # rest) = iac_scan front @ iac_scan (0xFF # rest)"
    by (simp add: iac_scan_frames)
  also from a have "iac_scan (0xFF # rest) = []" by (simp add: iac_scan_short)
  finally show "iac_filter (front @ 0xFF # rest) = iac_filter front"
    by (simp add: iac_filter_scan)
next
  show "map iac_filter [[0x41, 0xFF], [0xFB, 0x01, 0x42]] = [[0x41], [0xFB, 0x01, 0x42]]"
    by (simp add: iac_filter_scan)
qed

theorem iac_filter_truncated_witness:
  "complete_frames [0x41, 0xFF, 0xFB, 0x01, 0x42] \<and> length [0x43::byte] < 2
   \<and> iac_filter ([0x41, 0xFF, 0xFB, 0x01, 0x42] @ 0xFF # [0x43]) = [0x41, 0x42]"
proof -
  have h: "complete_frames [0x41, 0xFF, 0xFB, 0x01, 0x42] \<and> length [0x43::byte] < 2"
    by simp
  have r: "iac_filter [0x41, 0xFF, 0xFB, 0x01, 0x42] = [0x41, 0x42]"
    by (simp add: iac_filter_def iac_loop.simps)
  from h r iac_filter_truncated [of "[0x41, 0xFF, 0xFB, 0x01, 0x42]" "[0x43]"]
  show ?thesis by simp
qed

text \<open>
  Claim C10.  The filtered buffer is a subsequence of the input, so it is never longer,
  and it contains no marker byte.
\<close>

theorem iac_filter_subseq_no_marker:
  "subseq (iac_filter data) data
   \<and> length (iac_filter data) \<le> length data
   \<and> 0xFF \<notin> set (iac_filter data)"
proof -
  have s: "subseq (iac_filter data) data"
    by (simp add: iac_filter_scan iac_scan_subseq)
  from s have "length (iac_filter data) \<le> length data"
    by (rule list_emb_length)
  with s show ?thesis
    by (simp add: iac_filter_scan iac_scan_no_marker)
qed

subsection \<open>Claims about the relay\<close>

text \<open>
  Claim C2.  The payloads handed to \<^verbatim>\<open>ser.write\<close> during a session are the buffers
  received from the client that are not empty, each one as it was received and in the
  order of receipt; the filtered buffer does not enter the call.  The buffer
  \<open>[0xFF, 0xFB, 0x03, 0x06]\<close> is written with its IAC sequence, while its filtered view
  is \<open>[0x06]\<close>.
\<close>

theorem serial_write_payload_is_raw:
  "(tcp_in s = [] \<and> serial_out s = [] \<longrightarrow>
      map fst (serial_out (snd (handle_tcp_client s c a evs))) =
        filter (\<lambda>b. b \<noteq> []) (tcp_in (snd (handle_tcp_client s c a evs))))
   \<and> (data \<noteq> [] \<longrightarrow>
        serial_out (state_of (tcp_to_serial_pass s (Recv data) written)) =
          serial_out s @ [(data, written)])
   \<and> serial_out (state_of (tcp_to_serial_pass initial (Recv [0xFF, 0xFB, 0x03, 0x06]) Done)) =
        [([0xFF, 0xFB, 0x03, 0x06], Done)]
   \<and> iac_filter [0xFF, 0xFB, 0x03, 0x06] = [0x06]"
proof (intro conjI impI)
  assume "tcp_in s = [] \<and> serial_out s = []"
  then have "map fst (serial_out (handler_start s c a)) =
      filter (\<lambda>b. b \<noteq> []) (tcp_in (handler_start s c a))"
    by (simp add: handler_start_def)
  then have "map fst (serial_out (snd (receive_loop (handler_start s c a) evs))) =
      filter (\<lambda>b. b \<noteq> []) (tcp_in (snd (receive_loop (handler_start s c a) evs)))"
    by (rule receive_loop_payloads)
  then show "map fst (serial_out (snd (handle_tcp_client s c a evs))) =
        filter (\<lambda>b. b \<noteq> []) (tcp_in (snd (handle_tcp_client s c a evs)))"
    by (simp add: handle_tcp_client_logs)
next
  assume "data \<noteq> []"
  then show "serial_out (state_of (tcp_to_serial_pass s (Recv data) written)) =
          serial_out s @ [(data, written)]"
    by (cases written) (simp_all add: tcp_to_serial_pass_cases)
next
  show "serial_out (state_of (tcp_to_serial_pass initial (Recv [0xFF, 0xFB, 0x03, 0x06]) Done)) =
        [([0xFF, 0xFB, 0x03, 0x06], Done)]"
    by (simp add: tcp_to_serial_pass_cases initial_def)
next
  show "iac_filter [0xFF, 0xFB, 0x03, 0x06] = [0x06]"
    by (simp add: iac_filter_scan)
qed

theorem serial_write_payload_is_raw_witness:
  "tcp_in initial = [] \<and> serial_out initial = []
   \<and> map fst (serial_out (snd (handle_tcp_client initial 1 (''10.0.0.2'', 50000)
        [(Recv [0x01, 0x02], Done), (Recv [0xFF, 0xFB, 0x03, 0x06], Done), (Recv [], Done)]))) =
      [[0x01, 0x02], [0xFF, 0xFB, 0x03, 0x06]]
   \<and> serial_out (state_of (tcp_to_serial_pass initial (Recv [0xFF, 0xFD, 0x01]) Done)) =
        [([0xFF, 0xFD, 0x01], Done)]"
proof -
  have h: "tcp_in initial = [] \<and> serial_out initial = []" by (simp add: initial_def)
  have d: "[0xFF, 0xFD, 0x01] \<noteq> ([] :: byte list)" by simp
  have t: "tcp_in (snd (handle_tcp_client initial 1 (''10.0.0.2'', 50000)
        [(Recv [0x01, 0x02], Done), (Recv [0xFF, 0xFB, 0x03, 0x06], Done), (Recv [], Done)])) =
      [[0x01, 0x02], [0xFF, 0xFB, 0x03, 0x06], []]"
    by (simp add: handle_tcp_client_def handler_start_def handler_end_def release_def
        tcp_to_serial_pass_cases initial_def)
  from h d t
    serial_write_payload_is_raw [of initial 1 "(''10.0.0.2'', 50000)"
      "[(Recv [0x01, 0x02], Done), (Recv [0xFF, 0xFB, 0x03, 0x06], Done), (Recv [], Done)]"
      "[0xFF, 0xFD, 0x01]" Done]
  show ?thesis by (simp add: initial_def)
qed





text \<open>
  Claim C3.  As stated the claim fails for the serial-to-TCP pump: a \<^verbatim>\<open>sendall\<close> that
  raises ends that pump only (line 38, and the remark of line 49 that the closing is
  left to the handler's loop).  What holds, in the interleaved run.  A pass of the
  handler in which \<^verbatim>\<open>recv\<close> or \<^verbatim>\<open>ser.write\<close> raises takes the handler out of its loop.
  Whatever the other threads do before and between the statements of its \<^verbatim>\<open>finally\<close>
  block: if the slot holds the connection of the session when line 99 runs, that
  connection is closed and stays closed, the slot is cleared by line 100, and the
  handler returns.  A loop test that a serial-to-TCP pump makes while the slot is
  cleared ends that pump, and a connection accepted while the slot is cleared and the
  server runs is handed to a new handler.  A \<^verbatim>\<open>sendall\<close> that raises ends the
  serial-to-TCP pump and nothing else: no connection is closed, the slot and the
  handlers are as they were, and a connection accepted while the slot is occupied is
  closed.
\<close>

theorem teardown_follows_handler_failure:
  "(handler_of \<sigma> c = Some Receiving \<and> is_running (shared \<sigma>) \<and> fails received written
      \<and> list_all (\<lambda>act. \<not> of_handler c act) before_close
      \<and> list_all (\<lambda>act. \<not> of_handler c act) before_socket
      \<and> list_all (\<lambda>act. \<not> of_handler c act) before_address
      \<and> tcp_socket (shared (execs (exec \<sigma> (Receive c received written)) before_close)) = Some c \<longrightarrow>
        handler_of (exec \<sigma> (Receive c received written)) c = Some Leaving
        \<and> c \<in> set (closed (shared
            (after_close (exec \<sigma> (Receive c received written)) c before_close)))
        \<and> tcp_socket (shared
            (after_clear_socket (exec \<sigma> (Receive c received written)) c
               before_close before_socket)) = None
        \<and> handler_of
            (after_finally (exec \<sigma> (Receive c received written)) c
               before_close before_socket before_address) c = Some (Ended Returned)
        \<and> c \<in> set (closed (shared
            (after_finally (exec \<sigma> (Receive c received written)) c
               before_close before_socket before_address))))
   \<and> (pump_of \<sigma> p = Some Testing \<and> tcp_socket (shared \<sigma>) = None \<longrightarrow>
        pump_of (exec \<sigma> (Test p)) p = Some (Halted Returned))
   \<and> (is_running (shared \<sigma>) \<and> tcp_socket (shared \<sigma>) = None \<and> handler_of \<sigma> c' = None \<longrightarrow>
        handler_of (exec \<sigma> (Listen c' a')) c' = Some (Created a'))
   \<and> (pump_of \<sigma> p = Some (Sending data) \<and> tcp_socket (shared \<sigma>) = Some c \<longrightarrow>
        pump_of (exec \<sigma> (Send p (Raises e))) p = Some (Halted Returned)
        \<and> tcp_socket (shared (exec \<sigma> (Send p (Raises e)))) = Some c
        \<and> client_address (shared (exec \<sigma> (Send p (Raises e)))) = client_address (shared \<sigma>)
        \<and> closed (shared (exec \<sigma> (Send p (Raises e)))) = closed (shared \<sigma>)
        \<and> handler_of (exec \<sigma> (Send p (Raises e))) = handler_of \<sigma>)
   \<and> (is_running (shared \<sigma>) \<and> tcp_socket (shared \<sigma>) = Some c \<and> handler_of \<sigma> c' = None \<longrightarrow>
        handler_of (exec \<sigma> (Listen c' a')) c' = None
        \<and> c' \<in> set (closed (shared (exec \<sigma> (Listen c' a')))))"
proof (intro conjI impI)
  let ?\<sigma>1 = "exec \<sigma> (Receive c received written)"
  assume a: "handler_of \<sigma> c = Some Receiving \<and> is_running (shared \<sigma>) \<and> fails received written
      \<and> list_all (\<lambda>act. \<not> of_handler c act) before_close
      \<and> list_all (\<lambda>act. \<not> of_handler c act) before_socket
      \<and> list_all (\<lambda>act. \<not> of_handler c act) before_address
      \<and> tcp_socket (shared (execs ?\<sigma>1 before_close)) = Some c"
  then show leaving: "handler_of ?\<sigma>1 c = Some Leaving"
    by (intro receive_fails_leaves) blast+
  from a have o: "list_all (\<lambda>act. \<not> of_handler c act) before_close"
    "list_all (\<lambda>act. \<not> of_handler c act) before_socket"
    "list_all (\<lambda>act. \<not> of_handler c act) before_address"
    and own: "tcp_socket (shared (execs ?\<sigma>1 before_close)) = Some c"
    by blast+
  from leaving o own show "c \<in> set (closed (shared (after_close ?\<sigma>1 c before_close)))"
    by (rule leaving_handler_teardown)
  from leaving o own
  show "tcp_socket (shared (after_clear_socket ?\<sigma>1 c before_close before_socket)) = None"
    by (rule leaving_handler_teardown)
  from leaving o own
  show "handler_of (after_finally ?\<sigma>1 c before_close before_socket before_address) c =
      Some (Ended Returned)"
    by (rule leaving_handler_teardown)
  from leaving o own
  show "c \<in> set (closed (shared
      (after_finally ?\<sigma>1 c before_close before_socket before_address)))"
    by (rule leaving_handler_teardown)
next
  assume "pump_of \<sigma> p = Some Testing \<and> tcp_socket (shared \<sigma>) = None"
  then show "pump_of (exec \<sigma> (Test p)) p = Some (Halted Returned)" by simp
next
  assume "is_running (shared \<sigma>) \<and> tcp_socket (shared \<sigma>) = None \<and> handler_of \<sigma> c' = None"
  then show "handler_of (exec \<sigma> (Listen c' a')) c' = Some (Created a')"
    by (simp add: listener_accept_def)
next
  let ?\<sigma>' = "exec \<sigma> (Send p (Raises e))"
  assume a: "pump_of \<sigma> p = Some (Sending data) \<and> tcp_socket (shared \<sigma>) = Some c"
  then show "pump_of ?\<sigma>' p = Some (Halted Returned)" by simp
  from a show "tcp_socket (shared ?\<sigma>') = Some c" by simp
  from a show "client_address (shared ?\<sigma>') = client_address (shared \<sigma>)" by simp
  from a show "closed (shared ?\<sigma>') = closed (shared \<sigma>)" by simp
  from a show "handler_of ?\<sigma>' = handler_of \<sigma>" by simp
next
  assume a: "is_running (shared \<sigma>) \<and> tcp_socket (shared \<sigma>) = Some c \<and> handler_of \<sigma> c' = None"
  then show "handler_of (exec \<sigma> (Listen c' a')) c' = None" by (simp add: listener_accept_def)
  from a show "c' \<in> set (closed (shared (exec \<sigma> (Listen c' a'))))"
    by (simp add: listener_accept_def)
qed

theorem teardown_follows_handler_failure_witness:
  "handler_of (execs boot [Listen 1 (''10.0.0.2'', 50000), SetSocket 1, SetAddress 1]) 1 =
      Some Receiving
   \<and> is_running (shared (execs boot [Listen 1 (''10.0.0.2'', 50000), SetSocket 1, SetAddress 1]))
   \<and> fails (Recv [0x02]) (Raises SerialException)
   \<and> list_all (\<lambda>act. \<not> of_handler 1 act) [Test 1, Poll 1 NoneWaiting]
   \<and> list_all (\<lambda>act. \<not> of_handler 1 act) [Test 1]
   \<and> list_all (\<lambda>act. \<not> of_handler 1 act) [Listen 2 (''10.0.0.3'', 50001)]
   \<and> tcp_socket (shared (execs (exec
         (execs boot [Listen 1 (''10.0.0.2'', 50000), SetSocket 1, SetAddress 1])
         (Receive 1 (Recv [0x02]) (Raises SerialException))) [Test 1, Poll 1 NoneWaiting])) = Some 1
   \<and> 1 \<in> set (closed (shared (after_finally (exec
         (execs boot [Listen 1 (''10.0.0.2'', 50000), SetSocket 1, SetAddress 1])
         (Receive 1 (Recv [0x02]) (Raises SerialException))) 1
         [Test 1, Poll 1 NoneWaiting] [Test 1] [Listen 2 (''10.0.0.3'', 50001)])))
   \<and> handler_of (after_finally (exec
         (execs boot [Listen 1 (''10.0.0.2'', 50000), SetSocket 1, SetAddress 1])
         (Receive 1 (Recv [0x02]) (Raises SerialException))) 1
         [Test 1, Poll 1 NoneWaiting] [Test 1] [Listen 2 (''10.0.0.3'', 50001)]) 1 =
       Some (Ended Returned)
   \<and> pump_of (execs boot [Listen 1 (''10.0.0.2'', 50000), SetSocket 1, SetAddress 1,
         Receive 1 (Recv [0x02]) (Raises SerialException), Close 1, ClearSocket 1]) 1 =
       Some Testing
   \<and> tcp_socket (shared (execs boot [Listen 1 (''10.0.0.2'', 50000), SetSocket 1, SetAddress 1,
         Receive 1 (Recv [0x02]) (Raises SerialException), Close 1, ClearSocket 1])) = None
   \<and> pump_of (exec (execs boot [Listen 1 (''10.0.0.2'', 50000), SetSocket 1, SetAddress 1,
         Receive 1 (Recv [0x02]) (Raises SerialException), Close 1, ClearSocket 1]) (Test 1)) 1 =
       Some (Halted Returned)
   \<and> is_running (shared (execs boot [Listen 1 (''10.0.0.2'', 50000), SetSocket 1, SetAddress 1,
         Receive 1 (Recv [0x02]) (Raises SerialException), Close 1, ClearSocket 1]))
   \<and> handler_of (execs boot [Listen 1 (''10.0.0.2'', 50000), SetSocket 1, SetAddress 1,
         Receive 1 (Recv [0x02]) (Raises SerialException), Close 1, ClearSocket 1]) 2 = None
   \<and> handler_of (exec (execs boot [Listen 1 (''10.0.0.2'', 50000), SetSocket 1, SetAddress 1,
         Receive 1 (Recv [0x02]) (Raises SerialException), Close 1, ClearSocket 1])
         (Listen 2 (''10.0.0.3'', 50001))) 2 = Some (Created (''10.0.0.3'', 50001))
   \<and> pump_of (execs boot [Listen 1 (''10.0.0.2'', 50000), SetSocket 1, SetAddress 1, Test 1,
         Poll 1 (Waiting [0x03])]) 1 = Some (Sending [0x03])
   \<and> tcp_socket (shared (execs boot [Listen 1 (''10.0.0.2'', 50000), SetSocket 1, SetAddress 1,
         Test 1, Poll 1 (Waiting [0x03])])) = Some 1
   \<and> tcp_socket (shared (exec (execs boot [Listen 1 (''10.0.0.2'', 50000), SetSocket 1,
         SetAddress 1, Test 1, Poll 1 (Waiting [0x03])]) (Send 1 (Raises SocketError)))) = Some 1
   \<and> is_running (shared (execs boot [Listen 1 (''10.0.0.2'', 50000), SetSocket 1, SetAddress 1,
         Test 1, Poll 1 (Waiting [0x03])]))
   \<and> handler_of (execs boot [Listen 1 (''10.0.0.2'', 50000), SetSocket 1, SetAddress 1, Test 1,
         Poll 1 (Waiting [0x03])]) 2 = None
   \<and> 2 \<in> set (closed (shared (exec (execs boot [Listen 1 (''10.0.0.2'', 50000), SetSocket 1,
         SetAddress 1, Test 1, Poll 1 (Waiting [0x03])]) (Listen 2 (''10.0.0.3'', 50001)))))"
proof -
  let ?\<sigma>0 = "execs boot [Listen 1 (''10.0.0.2'', 50000), SetSocket 1, SetAddress 1]"
  let ?\<sigma>1 = "execs boot [Listen 1 (''10.0.0.2'', 50000), SetSocket 1, SetAddress 1,
         Receive 1 (Recv [0x02]) (Raises SerialException), Close 1, ClearSocket 1]"
  let ?\<sigma>2 = "execs boot [Listen 1 (''10.0.0.2'', 50000), SetSocket 1, SetAddress 1, Test 1,
         Poll 1 (Waiting [0x03])]"
  let ?failed = "exec ?\<sigma>0 (Receive 1 (Recv [0x02]) (Raises SerialException))"
  note ev = boot_def initial_def listener_accept_def tcp_to_serial_pass_cases
  have a1: "handler_of ?\<sigma>0 1 = Some Receiving" by (simp add: ev)
  have a2: "is_running (shared ?\<sigma>0)" by (simp add: ev)
  have a3: "fails (Recv [0x02]) (Raises SerialException)" by simp
  have a4: "list_all (\<lambda>act. \<not> of_handler 1 act) [Test 1, Poll 1 NoneWaiting]" by simp
  have a5: "list_all (\<lambda>act. \<not> of_handler 1 act) [Test 1]" by simp
  have a6: "list_all (\<lambda>act. \<not> of_handler 1 act) [Listen 2 (''10.0.0.3'', 50001)]" by simp
  have a7: "tcp_socket (shared (execs ?failed [Test 1, Poll 1 NoneWaiting])) = Some 1"
    by (simp add: ev)
  from a1 a2 a3 a4 a5 a6 a7
  have a: "handler_of ?\<sigma>0 1 = Some Receiving \<and> is_running (shared ?\<sigma>0)
      \<and> fails (Recv [0x02]) (Raises SerialException)
      \<and> list_all (\<lambda>act. \<not> of_handler 1 act) [Test 1, Poll 1 NoneWaiting]
      \<and> list_all (\<lambda>act. \<not> of_handler 1 act) [Test 1]
      \<and> list_all (\<lambda>act. \<not> of_handler 1 act) [Listen 2 (''10.0.0.3'', 50001)]
      \<and> tcp_socket (shared (execs ?failed [Test 1, Poll 1 NoneWaiting])) = Some 1" by blast
  note first = teardown_follows_handler_failure [of ?\<sigma>0 1 "Recv [0x02]" "Raises SerialException"
      "[Test 1, Poll 1 NoneWaiting]" "[Test 1]" "[Listen 2 (''10.0.0.3'', 50001)]",
      THEN conjunct1, THEN mp, OF a]
  from first
  have r1: "1 \<in> set (closed (shared (after_finally ?failed 1
      [Test 1, Poll 1 NoneWaiting] [Test 1] [Listen 2 (''10.0.0.3'', 50001)])))" by blast
  from first
  have r1': "handler_of (after_finally ?failed 1
      [Test 1, Poll 1 NoneWaiting] [Test 1] [Listen 2 (''10.0.0.3'', 50001)]) 1 =
      Some (Ended Returned)" by blast
  have b1: "pump_of ?\<sigma>1 1 = Some Testing" by (simp add: ev)
  have b2: "tcp_socket (shared ?\<sigma>1) = None" by (simp add: ev)
  from b1 b2 have b: "pump_of ?\<sigma>1 1 = Some Testing \<and> tcp_socket (shared ?\<sigma>1) = None" by blast
  from teardown_follows_handler_failure [of ?\<sigma>1 _ _ _ _ _ _ 1,
      THEN conjunct2, THEN conjunct1, THEN mp, OF b]
  have r2: "pump_of (exec ?\<sigma>1 (Test 1)) 1 = Some (Halted Returned)" .
  have c1: "is_running (shared ?\<sigma>1)" by (simp add: ev)
  have c3: "handler_of ?\<sigma>1 2 = None" by (simp add: ev)
  from c1 b2 c3 have c: "is_running (shared ?\<sigma>1) \<and> tcp_socket (shared ?\<sigma>1) = None
      \<and> handler_of ?\<sigma>1 2 = None" by blast
  from teardown_follows_handler_failure [of ?\<sigma>1 _ _ _ _ _ _ _ 2 "(''10.0.0.3'', 50001)",
      THEN conjunct2, THEN conjunct2, THEN conjunct1, THEN mp, OF c]
  have r3: "handler_of (exec ?\<sigma>1 (Listen 2 (''10.0.0.3'', 50001))) 2 =
      Some (Created (''10.0.0.3'', 50001))" .
  have d1: "pump_of ?\<sigma>2 1 = Some (Sending [0x03])" by (simp add: ev)
  have d2: "tcp_socket (shared ?\<sigma>2) = Some 1" by (simp add: ev)
  from d1 d2 have d: "pump_of ?\<sigma>2 1 = Some (Sending [0x03]) \<and> tcp_socket (shared ?\<sigma>2) = Some 1"
    by blast
  from teardown_follows_handler_failure [of ?\<sigma>2 1 _ _ _ _ _ 1 _ _ "[0x03]" SocketError,
      THEN conjunct2, THEN conjunct2, THEN conjunct2, THEN conjunct1, THEN mp, OF d]
  have r4: "tcp_socket (shared (exec ?\<sigma>2 (Send 1 (Raises SocketError)))) = Some 1" by blast
  have e1: "is_running (shared ?\<sigma>2)" by (simp add: ev)
  have e3: "handler_of ?\<sigma>2 2 = None" by (simp add: ev)
  from e1 d2 e3 have e: "is_running (shared ?\<sigma>2) \<and> tcp_socket (shared ?\<sigma>2) = Some 1
      \<and> handler_of ?\<sigma>2 2 = None" by blast
  from teardown_follows_handler_failure [of ?\<sigma>2 1 _ _ _ _ _ _ 2 "(''10.0.0.3'', 50001)",
      THEN conjunct2, THEN conjunct2, THEN conjunct2, THEN conjunct2, THEN mp, OF e]
  have r5: "2 \<in> set (closed (shared (exec ?\<sigma>2 (Listen 2 (''10.0.0.3'', 50001)))))" by blast
  from a1 a2 a3 a4 a5 a6 a7 r1 r1' b1 b2 r2 c1 c3 r3 d1 d2 r4 e1 e3 r5 show ?thesis by blast
qed

text \<open>
  The run that refutes the claim as stated: the session of connection 1 is active,
  \<^verbatim>\<open>sendall\<close> raises, the pump returns; the connection is not closed, the slot still
  holds it, and the listener closes the connection that comes next.
\<close>

theorem send_failure_keeps_slot_occupied:
  "fst (serial_to_tcp (handler_start initial 1 (''10.0.0.2'', 50000))
        [(Waiting [0x03, 0x04], Raises SocketError)]) = Returned
   \<and> tcp_socket (snd (serial_to_tcp (handler_start initial 1 (''10.0.0.2'', 50000))
        [(Waiting [0x03, 0x04], Raises SocketError)])) = Some 1
   \<and> closed (snd (serial_to_tcp (handler_start initial 1 (''10.0.0.2'', 50000))
        [(Waiting [0x03, 0x04], Raises SocketError)])) = []
   \<and> fst (listener_accept (snd (serial_to_tcp (handler_start initial 1 (''10.0.0.2'', 50000))
        [(Waiting [0x03, 0x04], Raises SocketError)])) 2 (''10.0.0.3'', 50001)) = Rejected"
  by (simp add: serial_to_tcp_iter_def pump_pass_def handler_start_def initial_def
      listener_accept_def)

text \<open>
  Claim C4.  As stated the claim fails: the program has no stop flag of a session, and
  a pump that fails sets nothing.  What holds: an exception of the serial port
  (\<^verbatim>\<open>in_waiting\<close>, \<^verbatim>\<open>read\<close>) or of \<^verbatim>\<open>sendall\<close> ends the serial-to-TCP pump, which
  returns; no exception leaves \<^verbatim>\<open>serial_to_tcp\<close>, whatever the calls return or raise;
  and the pump leaves the globals \<^verbatim>\<open>tcp_socket\<close>, \<^verbatim>\<open>client_address\<close> and
  \<^verbatim>\<open>is_running\<close> and the set of closed connections as they were.
\<close>

theorem pump_errors_end_the_pump_only:
  "fst (serial_to_tcp_iter s (PollRaises e, sent)) = Returned
   \<and> (data \<noteq> [] \<longrightarrow> fst (serial_to_tcp_iter s (Waiting data, Raises e)) = Returned)
   \<and> fst (serial_to_tcp s polls) \<noteq> Propagated e'
   \<and> tcp_socket (snd (serial_to_tcp s polls)) = tcp_socket s
   \<and> client_address (snd (serial_to_tcp s polls)) = client_address s
   \<and> is_running (snd (serial_to_tcp s polls)) = is_running s
   \<and> closed (snd (serial_to_tcp s polls)) = closed s"
proof (intro conjI impI)
  show "fst (serial_to_tcp_iter s (PollRaises e, sent)) = Returned"
    by (simp add: serial_to_tcp_iter_poll_fails)
next
  assume d: "data \<noteq> []"
  show "fst (serial_to_tcp_iter s (Waiting data, Raises e)) = Returned"
  proof (cases "is_running s \<and> tcp_socket s \<noteq> None")
    case True
    then obtain c where "tcp_socket s = Some c" by auto
    with True d show ?thesis by (simp add: serial_to_tcp_iter_send_fails)
  next
    case False
    then show ?thesis by (auto simp: serial_to_tcp_iter_def)
  qed
next
  show "fst (serial_to_tcp s polls) \<noteq> Propagated e'"
    by (rule serial_to_tcp_not_propagated)
qed (simp_all add: serial_to_tcp_globals)

theorem pump_errors_end_the_pump_only_witness:
  "[0x03 :: byte] \<noteq> []
   \<and> fst (serial_to_tcp_iter (handler_start initial 1 (''10.0.0.2'', 50000))
        (Waiting [0x03], Raises SocketError)) = Returned
   \<and> is_running (snd (serial_to_tcp (handler_start initial 1 (''10.0.0.2'', 50000))
        [(Waiting [0x03], Raises SocketError)]))
   \<and> tcp_socket (snd (serial_to_tcp (handler_start initial 1 (''10.0.0.2'', 50000))
        [(Waiting [0x03], Raises SocketError)])) = Some 1"
proof -
  have d: "[0x03 :: byte] \<noteq> []" by simp
  have g: "is_running (handler_start initial 1 (''10.0.0.2'', 50000))
      \<and> tcp_socket (handler_start initial 1 (''10.0.0.2'', 50000)) = Some 1"
    by (simp add: handler_start_def initial_def)
  from d g
    pump_errors_end_the_pump_only [of "handler_start initial 1 (''10.0.0.2'', 50000)"
      SocketError Done "[0x03]" "[(Waiting [0x03], Raises SocketError)]"]
  show ?thesis by simp
qed

text \<open>
  The run that refutes the claim as stated: in the session of connection 1 the serial
  port raises; the pump returns and the shared state is what it was before, so nothing
  tells the other pump to stop: it relays the next buffer and blocks in \<^verbatim>\<open>recv\<close> again.
\<close>

theorem pump_failure_sets_no_flag:
  "serial_to_tcp (handler_start initial 1 (''10.0.0.2'', 50000))
      [(PollRaises SerialException, Done)] =
     (Returned, handler_start initial 1 (''10.0.0.2'', 50000))
   \<and> is_running (handler_start initial 1 (''10.0.0.2'', 50000))
   \<and> receive_loop (snd (serial_to_tcp (handler_start initial 1 (''10.0.0.2'', 50000))
        [(PollRaises SerialException, Done)])) [(Recv [0x01], Done)] =
     (Blocked, (handler_start initial 1 (''10.0.0.2'', 50000))
        \<lparr>tcp_in := [[0x01]], serial_out := [([0x01], Done)]\<rparr>)"
  by (simp add: serial_to_tcp_iter_def pump_pass_def handler_start_def initial_def
      tcp_to_serial_pass_cases)

text \<open>
  Claim C9.  As stated the claim fails: the release of lines 99 to 101 calls
  \<^verbatim>\<open>tcp_socket.close()\<close> on the global, which is \<^verbatim>\<open>None\<close> once the slot is cleared.  What
  holds: on an occupied slot the release closes the connection and sets both globals to
  \<^verbatim>\<open>None\<close>; on a cleared slot it raises \<^verbatim>\<open>AttributeError\<close>, which leaves the handler,
  and the slot stays cleared.  So after a session has ended, with its one release, the
  slot is cleared and a release run once more raises.
\<close>

theorem release_clears_occupied_slot:
  "(tcp_socket s = Some c \<longrightarrow>
      release s =
        Inr (s\<lparr>closed := closed s @ [c], tcp_socket := None, client_address := None\<rparr>))
   \<and> (tcp_socket s = None \<longrightarrow>
      release s = Inl AttributeError
      \<and> fst (handler_end s c') = Propagated AttributeError
      \<and> tcp_socket (snd (handler_end s c')) = None)
   \<and> (fst (handle_tcp_client s c a evs) = Returned \<longrightarrow>
      tcp_socket (snd (handle_tcp_client s c a evs)) = None
      \<and> release (snd (handle_tcp_client s c a evs)) = Inl AttributeError)"
proof (intro conjI impI)
  assume "tcp_socket s = Some c"
  then show "release s =
      Inr (s\<lparr>closed := closed s @ [c], tcp_socket := None, client_address := None\<rparr>)"
    by (simp add: release_def)
next
  assume none: "tcp_socket s = None"
  then show r: "release s = Inl AttributeError" by (simp add: release_def)
  then show "fst (handler_end s c') = Propagated AttributeError"
    by (simp add: handler_end_def)
  from r none show "tcp_socket (snd (handler_end s c')) = None"
    by (simp add: handler_end_def)
next
  let ?h = "handle_tcp_client s c a evs"
  assume "fst ?h = Returned"
  then have "fst (receive_loop (handler_start s c a) evs) \<noteq> Blocked"
    by (rule handle_tcp_client_returned)
  then have "?h =
     (Returned, (snd (receive_loop (handler_start s c a) evs))
        \<lparr>closed := closed s @ [c], tcp_socket := None, client_address := None,
         sessions := remove1 c (sessions s @ [c])\<rparr>)"
    by (rule handle_tcp_client_finished)
  then show cleared: "tcp_socket (snd ?h) = None" by simp
  then show "release (snd ?h) = Inl AttributeError" by (simp add: release_def)
qed

theorem release_clears_occupied_slot_witness:
  "tcp_socket (handler_start initial 1 (''10.0.0.2'', 50000)) = Some 1
   \<and> release (handler_start initial 1 (''10.0.0.2'', 50000)) =
       Inr (initial\<lparr>closed := [1], sessions := [1]\<rparr>)
   \<and> tcp_socket initial = None
   \<and> release initial = Inl AttributeError
   \<and> fst (handle_tcp_client initial 1 (''10.0.0.2'', 50000) [(Recv [], Done)]) = Returned
   \<and> release (snd (handle_tcp_client initial 1 (''10.0.0.2'', 50000) [(Recv [], Done)])) =
       Inl AttributeError"
proof -
  have h: "tcp_socket (handler_start initial 1 (''10.0.0.2'', 50000)) = Some 1"
    "tcp_socket initial = None"
    by (simp_all add: handler_start_def initial_def)
  have r: "fst (handle_tcp_client initial 1 (''10.0.0.2'', 50000) [(Recv [], Done)]) = Returned"
    by (simp add: handle_tcp_client_def handler_start_def handler_end_def release_def
        tcp_to_serial_pass_cases initial_def)
  from h r
    release_clears_occupied_slot [of "handler_start initial 1 (''10.0.0.2'', 50000)" 1]
    release_clears_occupied_slot [of initial 1 _ "(''10.0.0.2'', 50000)" "[(Recv [], Done)]"]
  show ?thesis by (simp add: handler_start_def initial_def)
qed

text \<open>
  The run that refutes the claim as stated: the first release clears the slot of the
  session of connection 1, and the second release, on the cleared slot, raises.
\<close>

theorem second_release_raises:
  "release (handler_start initial 1 (''10.0.0.2'', 50000)) =
     Inr (initial\<lparr>closed := [1], sessions := [1]\<rparr>)
   \<and> release (initial\<lparr>closed := [1], sessions := [1]\<rparr>) = Inl AttributeError"
  by (simp add: release_def handler_start_def initial_def)

subsection \<open>Claims about the listener\<close>

lemma slot_consistent_accept_start:
  assumes "slot_consistent s"
  shows "slot_consistent (step (step s (Accept c a)) (HandlerStarts c))"
proof (cases "is_running s")
  case False
  with assms show ?thesis by (simp add: listener_accept_def slot_consistent_def)
next
  case True
  show ?thesis
  proof (cases "tcp_socket s")
    case None
    with True assms show ?thesis
      by (simp add: listener_accept_def slot_consistent_def handler_start_def)
  next
    case (Some c')
    with True assms show ?thesis
      by (simp add: listener_accept_def slot_consistent_def)
  qed
qed

lemma slot_consistent_start:
  "slot_consistent s \<Longrightarrow> slot_consistent (step s (HandlerStarts c))"
  by (simp add: slot_consistent_def)

lemma slot_consistent_end:
  assumes "slot_consistent s"
  shows "slot_consistent (step s (HandlerEnds c))"
proof (cases "c \<in> set (sessions s)")
  case False
  with assms show ?thesis by simp
next
  case True
  with assms have "tcp_socket s = Some c" "sessions s = [c]" "pending s = []"
    by (auto simp: slot_consistent_def split: option.splits)
  then show ?thesis
    by (simp add: handler_end_occupied slot_consistent_def)
qed

lemma slot_consistent_run:
  "prompt evs \<Longrightarrow> slot_consistent s \<Longrightarrow> slot_consistent (run s evs)"
proof (induction evs arbitrary: s rule: prompt.induct)
  case 1
  then show ?case by (simp add: run_def)
next
  case (2 c a c' evs)
  from "2.prems"(1) have eq: "c' = c" and p: "prompt evs" by simp_all
  from "2.prems"(2) have "slot_consistent (step (step s (Accept c a)) (HandlerStarts c))"
    by (rule slot_consistent_accept_start)
  with "2.IH" [OF p] eq show ?case by (simp add: run_def)
next
  case (4 c evs)
  from "4.prems"(2) have "slot_consistent (step s (HandlerStarts c))"
    by (rule slot_consistent_start)
  with "4.IH" "4.prems"(1) show ?case by (simp add: run_def)
next
  case (5 c evs)
  from "5.prems"(2) have "slot_consistent (step s (HandlerEnds c))"
    by (rule slot_consistent_end)
  with "5.IH" "5.prems"(1) show ?case by (simp add: run_def)
qed simp_all

lemma single_session_without_race:
  assumes "prompt evs"
  shows "length (sessions (run initial evs)) \<le> 1"
proof -
  have "slot_consistent initial" by (simp add: slot_consistent_def initial_def)
  with assms have "slot_consistent (run initial evs)" by (rule slot_consistent_run)
  then show ?thesis by (auto simp: slot_consistent_def split: option.splits)
qed

lemma accept_while_occupied_rejects:
  "is_running s \<Longrightarrow> tcp_socket s = Some c' \<Longrightarrow>
   step s (Accept c a) = s\<lparr>closed := closed s @ [c]\<rparr>"
  by (simp add: listener_accept_cases)

text \<open>
  Claim C5.  The listener tests the global \<^verbatim>\<open>tcp_socket\<close> (line 217), and the global is
  set by the first statement of the handler thread (line 55), not by the listener.  Two
  connections accepted before the first handler has run that statement are both handed
  to a handler: neither is closed and two sessions are active at once.
\<close>

theorem two_accepts_before_handler_start:
  "sessions (run initial [Accept 1 (''10.0.0.2'', 50000), Accept 2 (''10.0.0.3'', 50001),
      HandlerStarts 1, HandlerStarts 2]) = [1, 2]
   \<and> closed (run initial [Accept 1 (''10.0.0.2'', 50000), Accept 2 (''10.0.0.3'', 50001),
      HandlerStarts 1, HandlerStarts 2]) = []
   \<and> tcp_socket (run initial [Accept 1 (''10.0.0.2'', 50000), Accept 2 (''10.0.0.3'', 50001),
      HandlerStarts 1, HandlerStarts 2]) = Some 2"
  by (simp add: run_def listener_accept_def handler_start_def initial_def)

text \<open>
  Claim C7.  The \<^verbatim>\<open>finally\<close> block closes the connection that the global \<^verbatim>\<open>tcp_socket\<close>
  holds, not the connection of the handler (line 99).  After two accepts that both come
  before the first statement of the first handler, the global holds connection 2.  The
  client of connection 1 disconnects: handler 1 leaves its loop, closes connection 2
  and clears the slot while session 2 goes on; connection 1 is not closed.  When the
  client of connection 2 disconnects in turn, handler 2 finds the global \<^verbatim>\<open>None\<close> and
  ends with \<^verbatim>\<open>AttributeError\<close>, and connection 1 is still not closed.  In a run in
  which the slot holds the connection of the handler when line 99 runs, the claim holds
  (lemma \<open>zero_length_receive_teardown\<close>).
\<close>

theorem zero_length_receive_closes_other_connection:
  "closed (shared (execs boot
      [Listen 1 (''10.0.0.2'', 50000), Listen 2 (''10.0.0.3'', 50001), SetSocket 1,
       SetAddress 1, SetSocket 2, SetAddress 2,
       Receive 1 (Recv []) Done, Close 1, ClearSocket 1, ClearAddress 1])) = [2]
   \<and> tcp_socket (shared (execs boot
      [Listen 1 (''10.0.0.2'', 50000), Listen 2 (''10.0.0.3'', 50001), SetSocket 1,
       SetAddress 1, SetSocket 2, SetAddress 2,
       Receive 1 (Recv []) Done, Close 1, ClearSocket 1, ClearAddress 1])) = None
   \<and> handler_of (execs boot
      [Listen 1 (''10.0.0.2'', 50000), Listen 2 (''10.0.0.3'', 50001), SetSocket 1,
       SetAddress 1, SetSocket 2, SetAddress 2,
       Receive 1 (Recv []) Done, Close 1, ClearSocket 1, ClearAddress 1]) 1 =
     Some (Ended Returned)
   \<and> handler_of (execs boot
      [Listen 1 (''10.0.0.2'', 50000), Listen 2 (''10.0.0.3'', 50001), SetSocket 1,
       SetAddress 1, SetSocket 2, SetAddress 2,
       Receive 1 (Recv []) Done, Close 1, ClearSocket 1, ClearAddress 1]) 2 = Some Receiving
   \<and> handler_of (execs boot
      [Listen 1 (''10.0.0.2'', 50000), Listen 2 (''10.0.0.3'', 50001), SetSocket 1,
       SetAddress 1, SetSocket 2, SetAddress 2,
       Receive 1 (Recv []) Done, Close 1, ClearSocket 1, ClearAddress 1,
       Receive 2 (Recv []) Done, Close 2]) 2 = Some (Ended (Propagated AttributeError))
   \<and> closed (shared (execs boot
      [Listen 1 (''10.0.0.2'', 50000), Listen 2 (''10.0.0.3'', 50001), SetSocket 1,
       SetAddress 1, SetSocket 2, SetAddress 2,
       Receive 1 (Recv []) Done, Close 1, ClearSocket 1, ClearAddress 1,
       Receive 2 (Recv []) Done, Close 2])) = [2]"
  by (simp add: boot_def initial_def listener_accept_def tcp_to_serial_pass_cases)

end
